theory Spec2Isabelle
  imports Complex_Main "HOL-Library.Char_ord" "HOL-Library.List_Lexorder"
begin

section \<open>Data model (the Mongoose schemas)\<close>

text \<open>
  The records hold the fields that the order workflow and the dashboard read or write.
  An ObjectId is kept as the string that its \<open>toString()\<close> gives, 24 hexadecimal digits
  with the letters in lower case; an id that a caller passes is any string, and a query
  casts it to an ObjectId before it is compared with a stored one.
  A JavaScript \<open>Number\<close> is an exact rational: sums and products are computed without
  the rounding of double arithmetic, which is outside this development.
  A \<open>Date\<close> is its time value, the number of milliseconds since the epoch.
  Every read and write of the store succeeds: a lost connection is not modelled.
\<close>

type_synonym objectId = string
type_synonym number = rat
type_synonym date = int

datatype orderStatus = Pending | Completed | Cancelled

datatype accountRole = Admin | Tutor | User

datatype accountStatus = Active | Inactive

datatype paymentMethodName = VNPay | Momo

record account =
  a_id :: objectId
  fullName :: string
  email :: string
  balance :: number
  role :: accountRole
  a_status :: accountStatus

record course =
  c_id :: objectId
  c_name :: string
  price :: number
  createdBy :: objectId
  isActive :: bool

record paymentMethod =
  pm_id :: objectId
  pm_name :: paymentMethodName

record order =
  o_id :: objectId
  o_account :: objectId
  o_paymentMethod :: objectId
  totalAmount :: number
  status :: orderStatus
  createdAt :: date
  updatedAt :: date

record orderDetail =
  od_id :: objectId
  od_order :: objectId
  od_course :: objectId
  quantity :: number
  od_price :: number
  isFinishCourse :: bool
  timeFinishCourse :: "date option"
  certificateOfCompletion :: "string option"

text \<open>The document store: one list of documents per collection, in insertion order.\<close>

record db =
  accounts :: "account list"
  courses :: "course list"
  paymentMethods :: "paymentMethod list"
  orders :: "order list"
  orderDetails :: "orderDetail list"

text \<open>
  The errors that leave a service: BadRequest and NotFound of \<open>http-errors\<close>, with their
  message, and the CastError that Mongoose throws when a query value cannot be cast to the
  type of its path, with the path and the value (it has no \<open>status\<close>, so the error
  handler of \<open>app.js\<close> answers it with 500). Then the object a service returns on success.
\<close>

datatype serviceError = BadRequest string | NotFound string | CastError string string

record 'a serviceResult =
  r_status :: nat
  r_message :: string
  r_data :: 'a

text \<open>
  An identifier argument is absent (\<open>undefined\<close>) or a string; \<open>!id\<close> holds for the
  absent one and for the empty string.
\<close>

definition falsy :: "string option \<Rightarrow> bool" where
  "falsy v = (case v of None \<Rightarrow> True | Some s \<Rightarrow> s = [])"

subsection \<open>Casting a string to an ObjectId\<close>

text \<open>
  A string is cast to an ObjectId when it consists of exactly 24 hexadecimal digits, in
  either case; the ObjectId is the 12 bytes they denote, so that two strings differing only
  in the case of their letters give the same ObjectId. Any other string is refused.
\<close>

definition isHexDigit :: "char \<Rightarrow> bool" where
  "isHexDigit c = (c \<in> set ''0123456789abcdefABCDEF'')"

definition hexLower :: "char \<Rightarrow> char" where
  "hexLower c =
     (if c = CHR ''A'' then CHR ''a'' else if c = CHR ''B'' then CHR ''b''
      else if c = CHR ''C'' then CHR ''c'' else if c = CHR ''D'' then CHR ''d''
      else if c = CHR ''E'' then CHR ''e'' else if c = CHR ''F'' then CHR ''f'' else c)"

definition isValidObjectId :: "string \<Rightarrow> bool" where
  "isValidObjectId s = (length s = 24 \<and> list_all isHexDigit s)"

text \<open>\<open>new ObjectId(s).toString()\<close> for a valid \<open>s\<close>, and the cast of an arbitrary string.\<close>

definition toObjectId :: "string \<Rightarrow> objectId" where
  "toObjectId s = map hexLower s"

definition castObjectId :: "string \<Rightarrow> objectId option" where
  "castObjectId s = (if isValidObjectId s then Some (toObjectId s) else None)"

text \<open>
  The cast of one condition \<open>path: value\<close> of a query filter: a value that is
  \<open>undefined\<close> is left as it is and reaches the store as \<open>null\<close>, which no stored
  ObjectId equals; a string is cast, and a refused cast throws.
\<close>

definition castFilter :: "string \<Rightarrow> string option \<Rightarrow> serviceError + objectId option" where
  "castFilter path v =
     (case v of
        None \<Rightarrow> Inr None
      | Some s \<Rightarrow> (case castObjectId s of
                    None \<Rightarrow> Inl (CastError path s)
                  | Some k \<Rightarrow> Inr (Some k)))"

section \<open>orderService.updateOrderStatus\<close>

text \<open>
  \<open>db.Order.findOne({ _id: orderId, account: accountId })\<close>: both values are cast, \<open>_id\<close>
  first, and the result is the first order matching both, or \<open>null\<close>.
\<close>

definition Order_findOne ::
    "db \<Rightarrow> string option \<Rightarrow> string option \<Rightarrow> serviceError + order option" where
  "Order_findOne d orderId accountId =
     (case castFilter ''_id'' orderId of
        Inl e \<Rightarrow> Inl e
      | Inr i \<Rightarrow>
          (case castFilter ''account'' accountId of
             Inl e \<Rightarrow> Inl e
           | Inr a \<Rightarrow> Inr (find (\<lambda>x. Some (o_id x) = i \<and> Some (o_account x) = a) (orders d))))"

text \<open>\<open>order.save()\<close> of a loaded document: the stored document of that \<open>_id\<close> is replaced.\<close>

fun Order_save :: "order \<Rightarrow> order list \<Rightarrow> order list" where
  "Order_save doc [] = []"
| "Order_save doc (x # xs) = (if o_id x = o_id doc then doc # xs else x # Order_save doc xs)"

definition updateOrderStatus ::
    "date \<Rightarrow> db \<Rightarrow> string option \<Rightarrow> string option
       \<Rightarrow> db \<times> (serviceError + string option serviceResult)" where
  "updateOrderStatus now d orderId accountId =
     (if falsy orderId then (d, Inl (BadRequest ''Order ID is required''))
      else case Order_findOne d orderId accountId of
        Inl e \<Rightarrow> (d, Inl e)
      | Inr None \<Rightarrow> (d, Inl (NotFound ''Order not found or unauthorized''))
      | Inr (Some ord) \<Rightarrow>
          if status ord = Completed then (d, Inl (BadRequest ''Order is already paid''))
          else (d\<lparr>orders := Order_save (ord\<lparr>status := Completed, updatedAt := now\<rparr>) (orders d)\<rparr>,
                Inr \<lparr>r_status = 200,
                     r_message = ''Order status updated to Paid successfully'',
                     r_data = orderId\<rparr>))"

text \<open>
  The status stored for an order id, as a later reader of the collection sees it: the id
  is cast as in a query, and an id that cannot be cast denotes no order.
\<close>

definition statusOf :: "db \<Rightarrow> string \<Rightarrow> orderStatus option" where
  "statusOf d oid =
     (case castObjectId oid of
        None \<Rightarrow> None
      | Some k \<Rightarrow> map_option status (find (\<lambda>x. o_id x = k) (orders d)))"

section \<open>orderService.createOrder\<close>

text \<open>
  What the service takes from outside its own code: the ObjectIds that the constructors
  \<open>new db.PaymentMethod\<close>, \<open>new db.Order\<close> and \<open>new db.OrderDetail\<close> generate, the clock
  (the time value written by \<open>timestamps: true\<close>, and the local calendar fields that
  \<open>dateFormat\<close> reads from \<open>new Date()\<close>), the request, and three library functions:
  \<open>crypto.createHmac("sha512", key).update(msg).digest("hex")\<close>, the percent-encoding of
  \<open>URLSearchParams\<close>, and the conversion of a Number to a string.
\<close>

record localTime =
  getFullYear :: nat
  getMonth :: nat
  getDate :: nat
  getHours :: nat
  getMinutes :: nat
  getSeconds :: nat

record env =
  newPaymentMethodId :: objectId
  newOrderId :: objectId
  newOrderDetailId :: objectId
  now :: date
  clock :: localTime

record request =
  ip :: "string option"

record lib =
  hmacSha512Hex :: "string \<Rightarrow> string \<Rightarrow> string"
  formUrlEncode :: "string \<Rightarrow> string"
  numberToString :: "number \<Rightarrow> string"

subsection \<open>dateFormat\<close>

text \<open>\<open>String(num)\<close> for a natural number, and \<open>padStart(2, "0")\<close>.\<close>

fun showNat :: "nat \<Rightarrow> string" where
  "showNat n = (if n < 10 then [''0123456789'' ! n]
                else showNat (n div 10) @ [''0123456789'' ! (n mod 10)])"

declare showNat.simps [simp del]

definition pad :: "nat \<Rightarrow> string" where
  "pad num = (let s = showNat num in replicate (2 - length s) (CHR ''0'') @ s)"

text \<open>\<open>str.replace(pat, rep)\<close> with a string pattern: the first occurrence only.\<close>

fun replaceFirst :: "string \<Rightarrow> string \<Rightarrow> string \<Rightarrow> string" where
  "replaceFirst pat rep [] = (if pat = [] then rep else [])"
| "replaceFirst pat rep (c # cs) =
     (if take (length pat) (c # cs) = pat then rep @ drop (length pat) (c # cs)
      else c # replaceFirst pat rep cs)"

definition dateFormat :: "localTime \<Rightarrow> string \<Rightarrow> string" where
  "dateFormat date format =
     replaceFirst ''ss'' (pad (getSeconds date))
       (replaceFirst ''MM'' (pad (getMinutes date))
         (replaceFirst ''HH'' (pad (getHours date))
           (replaceFirst ''dd'' (pad (getDate date))
             (replaceFirst ''mm'' (pad (getMonth date + 1))
               (replaceFirst ''yyyy'' (showNat (getFullYear date)) format)))))"

subsection \<open>The VNPay payment URL\<close>

definition vnp_TmnCode :: string where
  "vnp_TmnCode = ''9TKDVWYK''"

definition vnp_HashSecret :: string where
  "vnp_HashSecret = ''LH6SD44ECTBWU1PHK3D2YCOI5HLUWGPH''"

text \<open>The object literal \<open>paymentParams\<close>, as its (key, value) pairs in source order.\<close>

definition paymentParams ::
    "lib \<Rightarrow> env \<Rightarrow> request \<Rightarrow> number \<Rightarrow> objectId \<Rightarrow> string \<Rightarrow> (string \<times> string) list" where
  "paymentParams L E req amount orderId courseName =
     [(''vnp_Version'', ''2.1.0''),
      (''vnp_Command'', ''pay''),
      (''vnp_TmnCode'', vnp_TmnCode),
      (''vnp_Amount'', numberToString L (amount * 100)),
      (''vnp_CurrCode'', ''VND''),
      (''vnp_TxnRef'', orderId),
      (''vnp_OrderInfo'', ''Payment for course: '' @ courseName),
      (''vnp_OrderType'', ''250000''),
      (''vnp_Locale'', ''vn''),
      (''vnp_ReturnUrl'', ''http://localhost:3000?orderId='' @ orderId),
      (''vnp_IpAddr'', (case ip req of Some a \<Rightarrow> if a = [] then ''127.0.0.1'' else a
                                     | None \<Rightarrow> ''127.0.0.1'')),
      (''vnp_CreateDate'', dateFormat (clock E) ''yyyymmddHHMMss'')]"

text \<open>
  \<open>Object.keys(paymentParams).sort().reduce(...)\<close>: the keys in ascending order of their
  code units, each with the value the object holds for it.
\<close>

definition sortedParams :: "(string \<times> string) list \<Rightarrow> (string \<times> string) list" where
  "sortedParams params =
     map (\<lambda>key. (key, (case map_of params key of Some v \<Rightarrow> v | None \<Rightarrow> ''undefined'')))
         (sort (map fst params))"

text \<open>\<open>new URLSearchParams(obj).toString()\<close>: encoded \<open>key=value\<close> pairs joined by \<open>&\<close>.\<close>

fun joinAmp :: "string list \<Rightarrow> string" where
  "joinAmp [] = []"
| "joinAmp [x] = x"
| "joinAmp (x # y # ys) = x @ ''&'' @ joinAmp (y # ys)"

definition queryString :: "lib \<Rightarrow> (string \<times> string) list \<Rightarrow> string" where
  "queryString L params =
     joinAmp (map (\<lambda>(k, v). formUrlEncode L k @ ''='' @ formUrlEncode L v) params)"

definition vnpayUrl :: "lib \<Rightarrow> (string \<times> string) list \<Rightarrow> string" where
  "vnpayUrl L params =
     (let qs = queryString L (sortedParams params);
          secureHash = hmacSha512Hex L vnp_HashSecret qs
      in ''https://sandbox.vnpayment.vn/paymentv2/vpcpay.html?'' @ qs
           @ ''&vnp_SecureHash='' @ secureHash)"

subsection \<open>createOrder\<close>

text \<open>
  \<open>findById(id)\<close> is \<open>findOne({ _id: id })\<close>: the string is cast, and the result is the
  document with that ObjectId, or \<open>null\<close>.
\<close>

definition Course_findById :: "db \<Rightarrow> string \<Rightarrow> serviceError + course option" where
  "Course_findById d i =
     (case castObjectId i of
        None \<Rightarrow> Inl (CastError ''_id'' i)
      | Some k \<Rightarrow> Inr (find (\<lambda>c. c_id c = k) (courses d)))"

definition Account_findById :: "db \<Rightarrow> string \<Rightarrow> serviceError + account option" where
  "Account_findById d i =
     (case castObjectId i of
        None \<Rightarrow> Inl (CastError ''_id'' i)
      | Some k \<Rightarrow> Inr (find (\<lambda>a. a_id a = k) (accounts d)))"

text \<open>Find or create the VNPay payment method; a created one is saved at once.\<close>

definition findOrCreateVNPay :: "env \<Rightarrow> db \<Rightarrow> db \<times> paymentMethod" where
  "findOrCreateVNPay E d =
     (case find (\<lambda>p. pm_name p = VNPay) (paymentMethods d) of
        Some p \<Rightarrow> (d, p)
      | None \<Rightarrow>
          (let p = \<lparr>pm_id = newPaymentMethodId E, pm_name = VNPay\<rparr>
           in (d\<lparr>paymentMethods := paymentMethods d @ [p]\<rparr>, p)))"

text \<open>
  The documents \<open>new db.Order({ account: accountId, ... })\<close> and
  \<open>new db.OrderDetail({ course: courseId, ... })\<close> hold the ObjectIds of the two strings,
  which the lookups before them have cast already.
\<close>

definition createOrder ::
    "lib \<Rightarrow> env \<Rightarrow> db \<Rightarrow> request \<Rightarrow> string option \<Rightarrow> string option
       \<Rightarrow> db \<times> (serviceError + (objectId \<times> string) serviceResult)" where
  "createOrder L E d req courseId accountId =
     (if falsy courseId \<or> falsy accountId
      then (d, Inl (BadRequest ''Course ID and account ID are required''))
      else
        (let cid = (case courseId of Some s \<Rightarrow> s | None \<Rightarrow> []);
             aid = (case accountId of Some s \<Rightarrow> s | None \<Rightarrow> [])
         in case Course_findById d cid of
           Inl e \<Rightarrow> (d, Inl e)
         | Inr None \<Rightarrow> (d, Inl (NotFound ''Course not found or inactive''))
         | Inr (Some crs) \<Rightarrow>
             if \<not> isActive crs then (d, Inl (NotFound ''Course not found or inactive''))
             else (case Account_findById d aid of
               Inl e \<Rightarrow> (d, Inl e)
             | Inr None \<Rightarrow> (d, Inl (NotFound ''Account not found''))
             | Inr (Some acc) \<Rightarrow>
                 (let (d1, pm) = findOrCreateVNPay E d;
                      qty = 1;
                      amount = price crs * qty;
                      ord = \<lparr>o_id = newOrderId E, o_account = toObjectId aid,
                             o_paymentMethod = pm_id pm,
                             totalAmount = amount, status = Pending,
                             createdAt = now E, updatedAt = now E\<rparr>;
                      d2 = d1\<lparr>orders := orders d1 @ [ord]\<rparr>;
                      detail = \<lparr>od_id = newOrderDetailId E, od_order = o_id ord,
                                od_course = toObjectId cid,
                                quantity = qty, od_price = price crs, isFinishCourse = False,
                                timeFinishCourse = None, certificateOfCompletion = None\<rparr>;
                      d3 = d2\<lparr>orderDetails := orderDetails d2 @ [detail]\<rparr>;
                      url = vnpayUrl L (paymentParams L E req amount (o_id ord) (c_name crs))
                  in (d3, Inr \<lparr>r_status = 200, r_message = ''Order created successfully'',
                               r_data = (o_id ord, url)\<rparr>)))))"

section \<open>The dashboard services\<close>

subsection \<open>Dates\<close>

text \<open>
  \<open>$month\<close> gives the month, 1 to 12, of a time value in UTC: the day number is split by
  the 400-year cycle of the Gregorian calendar, with the year taken to start in March,
  so that \<open>mp\<close> is 0 for March and 11 for February and the month is \<open>(mp + 2) mod 12 + 1\<close>.
\<close>

definition utcMonth :: "date \<Rightarrow> nat" where
  "utcMonth t =
     (let z = t div 86400000 + 719468;
          doe = z mod 146097;
          yoe = (doe - doe div 1460 + doe div 36524 - doe div 146096) div 365;
          doy = doe - (365 * yoe + yoe div 4 - yoe div 100);
          mp = (5 * doy + 2) div 153
      in nat ((mp + 2) mod 12) + 1)"

text \<open>The day number (days since 1970-01-01) of 1 January of a year.\<close>

definition daysOfJan1 :: "int \<Rightarrow> int" where
  "daysOfJan1 y =
     (let y1 = y - 1; era = y1 div 400; yoe = y1 mod 400;
          doe = yoe * 365 + yoe div 4 - yoe div 100 + 306
      in era * 146097 + doe - 719468)"

text \<open>
  \<open>new Date(year, 0, 1)\<close>: midnight of 1 January in the server's local time, whose offset
  \<open>tz\<close> (milliseconds ahead of UTC) is a parameter; a year from 0 to 99 means 1900 + year.
\<close>

definition newDate :: "int \<Rightarrow> int \<Rightarrow> date" where
  "newDate tz year =
     daysOfJan1 (if 0 \<le> year \<and> year \<le> 99 then 1900 + year else year) * 86400000 - tz"

subsection \<open>Aggregation stages\<close>

text \<open>
  \<open>$group\<close>: the documents of each key, the groups in the order in which their keys first
  occur (MongoDB leaves the order of groups open; every pipeline here sorts afterwards).
\<close>

fun addDoc :: "'k \<Rightarrow> 'd \<Rightarrow> ('k \<times> 'd list) list \<Rightarrow> ('k \<times> 'd list) list" where
  "addDoc k x [] = [(k, [x])]"
| "addDoc k x ((k', xs) # gs) =
     (if k' = k then (k', xs @ [x]) # gs else (k', xs) # addDoc k x gs)"

definition groupDocs :: "('d \<Rightarrow> 'k) \<Rightarrow> 'd list \<Rightarrow> ('k \<times> 'd list) list" where
  "groupDocs key docs = foldl (\<lambda>gs x. addDoc (key x) x gs) [] docs"

text \<open>\<open>$lookup\<close> followed by \<open>$unwind\<close>: one output per matching foreign document.\<close>

definition lookupUnwind :: "('d \<Rightarrow> 'k) \<Rightarrow> ('f \<Rightarrow> 'k) \<Rightarrow> 'f list \<Rightarrow> 'd list \<Rightarrow> ('d \<times> 'f) list" where
  "lookupUnwind localField foreignField coll docs =
     concat (map (\<lambda>x. map (Pair x) (filter (\<lambda>f. foreignField f = localField x) coll)) docs)"

subsection \<open>StatsService.getMonthlyRevenue\<close>

record monthEntry =
  month :: nat
  revenue :: number

text \<open>
  A cell of the array \<open>monthlyRevenue\<close>: the number it was filled with, or the string that
  \<open>toFixed(2)\<close> returned, kept as the integer \<open>n\<close> whose digits it shows (the string reads
  \<open>n / 100\<close>). \<open>toFixed(2)\<close> takes the \<open>n\<close> with \<open>n / 100\<close> nearest to the number, the larger
  one of two, after setting the sign of a negative number aside.
\<close>

datatype cell = Num number | Fixed2 int

definition toFixed2 :: "number \<Rightarrow> int" where
  "toFixed2 x = (if x < 0 then - \<lfloor>(- x) * 100 + 1 / 2\<rfloor> else \<lfloor>x * 100 + 1 / 2\<rfloor>)"

fun parseFloat :: "cell \<Rightarrow> number" where
  "parseFloat (Num x) = x"
| "parseFloat (Fixed2 n) = of_int n / 100"

text \<open>The \<open>$match\<close> stage shared by both revenue functions.\<close>

definition matchCompleted :: "date \<Rightarrow> date \<Rightarrow> order list \<Rightarrow> order list" where
  "matchCompleted startDate endDate ords =
     filter (\<lambda>x. startDate \<le> createdAt x \<and> createdAt x < endDate \<and> status x = Completed) ords"

text \<open>
  The index \<open>data._id - 1\<close> is below 12, since \<open>$month\<close> yields 1 to 12, so the write never
  extends the array.
\<close>

definition getMonthlyRevenue :: "int \<Rightarrow> int \<Rightarrow> order list \<Rightarrow> monthEntry list" where
  "getMonthlyRevenue tz year ords =
     (let startDate = newDate tz year;
          endDate = newDate tz (year + 1);
          revenueData =
            sort_key fst
              (map (\<lambda>(k, xs). (k, sum_list (map totalAmount xs)))
                 (groupDocs (\<lambda>x. utcMonth (createdAt x)) (matchCompleted startDate endDate ords)));
          monthlyRevenue =
            foldl (\<lambda>arr (i, totalRevenue). arr[i - 1 := Fixed2 (toFixed2 (totalRevenue * (15 / 100)))])
              (replicate 12 (Num 0)) revenueData
      in map (\<lambda>(rev, index). \<lparr>month = index + 1, revenue = parseFloat rev\<rparr>)
           (zip monthlyRevenue [0..<length monthlyRevenue]))"

subsection \<open>getRevenueByYear\<close>

definition getRevenueByYear :: "int \<Rightarrow> int \<Rightarrow> order list \<Rightarrow> monthEntry list" where
  "getRevenueByYear tz year ords =
     (let startDate = newDate tz year;
          endDate = newDate tz (year + 1);
          rev =
            map (\<lambda>(k, totalRevenue). \<lparr>month = k, revenue = totalRevenue\<rparr>)
              (sort_key fst
                (map (\<lambda>(k, xs). (k, sum_list (map (\<lambda>x. totalAmount x * (15 / 100)) xs)))
                   (groupDocs (\<lambda>x. utcMonth (createdAt x)) (matchCompleted startDate endDate ords))))
      in map (\<lambda>i. let m = i + 1
                  in \<lparr>month = m,
                      revenue = (case find (\<lambda>r. month r = m) rev of
                                   Some monthData \<Rightarrow> revenue monthData | None \<Rightarrow> 0)\<rparr>)
           [0..<12])"

subsection \<open>What the specification says of a month\<close>

text \<open>
  The orders that count for month \<open>m\<close> of a year: Completed, created from 1 January of
  the year (as \<open>new Date(year, 0, 1)\<close> gives it for the offset \<open>tz\<close>) up to, not including,
  1 January of the next, in month \<open>m\<close> of the UTC calendar. With \<open>tz = 0\<close> the year and the
  month are both those of UTC. Rounding to two decimal places takes the nearest multiple
  of 1/100, a tie going away from zero.
\<close>

definition completedInMonth :: "int \<Rightarrow> int \<Rightarrow> nat \<Rightarrow> order list \<Rightarrow> order list" where
  "completedInMonth tz year m ords =
     filter (\<lambda>x. status x = Completed
                \<and> newDate tz year \<le> createdAt x \<and> createdAt x < newDate tz (year + 1)
                \<and> utcMonth (createdAt x) = m) ords"

definition roundTo2 :: "number \<Rightarrow> number" where
  "roundTo2 x = sgn x * of_int \<lfloor>\<bar>x\<bar> * 100 + 1 / 2\<rfloor> / 100"

subsection \<open>The top performers\<close>

record topAccount =
  ta_accountId :: objectId
  ta_fullName :: string
  ta_email :: string
  ta_completedCourses :: number

record topTutor =
  tt_fullName :: string
  tt_email :: string
  tt_completedCourses :: number

text \<open>\<open>$sort: { completedCourses: -1 }\<close>; equal counts stay in the order of the groups.\<close>

definition sortByCountDesc :: "('k \<times> number) list \<Rightarrow> ('k \<times> number) list" where
  "sortByCountDesc gs = sort_key (\<lambda>g. - snd g) gs"

definition getTopAccountByCompletedCourses :: "db \<Rightarrow> topAccount option" where
  "getTopAccountByCompletedCourses d =
     (let finished = filter isFinishCourse (orderDetails d);
          withOrder = lookupUnwind od_order o_id (orders d) finished;
          grouped = map (\<lambda>(k, xs). (k, sum_list (map (\<lambda>_. 1) xs)))
                      (groupDocs (\<lambda>(x, orderData). o_account orderData) withOrder);
          top = take 1 (sortByCountDesc grouped);
          withAccount = lookupUnwind fst a_id (accounts d) top;
          topAccount = map (\<lambda>((k, n), accountData).
                         \<lparr>ta_accountId = k, ta_fullName = fullName accountData,
                          ta_email = email accountData, ta_completedCourses = n\<rparr>) withAccount
      in case topAccount of [] \<Rightarrow> None | x # _ \<Rightarrow> Some x)"

definition getTopTutor :: "db \<Rightarrow> topTutor option" where
  "getTopTutor d =
     (let finished = filter isFinishCourse (orderDetails d);
          withCourse = lookupUnwind od_course c_id (courses d) finished;
          withTutor = lookupUnwind (\<lambda>(x, crs). createdBy crs) a_id (accounts d) withCourse;
          tutors = filter (\<lambda>(x, tutor). role tutor = Tutor) withTutor;
          grouped = List.map_filter
                      (\<lambda>(k, xs). case xs of [] \<Rightarrow> None
                         | (x, tutor) # _ \<Rightarrow>
                             Some ((fullName tutor, email tutor), sum_list (map (\<lambda>_. 1) xs)))
                      (groupDocs (\<lambda>(x, tutor). a_id tutor) tutors);
          top = take 1 (sortByCountDesc grouped);
          topTutor = map (\<lambda>((n, e), c). \<lparr>tt_fullName = n, tt_email = e, tt_completedCourses = c\<rparr>) top
      in if length topTutor > 0 then (case topTutor of x # _ \<Rightarrow> Some x | [] \<Rightarrow> None) else None)"

section \<open>The route GET /revenue/:year\<close>

text \<open>
  \<open>parseInt(string)\<close> without a radix: white space is skipped, then a sign, then the
  prefix \<open>0x\<close> or \<open>0X\<close> selects radix 16; the longest run of digits of the radix is read, and
  the result is \<open>NaN\<close> (here \<open>None\<close>) when that run is empty. Whatever follows is ignored.
\<close>

definition isWhiteSpace :: "char \<Rightarrow> bool" where
  "isWhiteSpace c = (c \<in> set [CHR 0x09, CHR 0x0A, CHR 0x0B, CHR 0x0C, CHR 0x0D, CHR 0x20, CHR 0xA0])"

definition digitValue :: "char \<Rightarrow> nat" where
  "digitValue c =
     (let n = of_char c
      in if 48 \<le> n \<and> n \<le> 57 then n - 48
         else if 97 \<le> n \<and> n \<le> 122 then n - 87
         else if 65 \<le> n \<and> n \<le> 90 then n - 55
         else 36)"

definition parseInt :: "string \<Rightarrow> int option" where
  "parseInt str =
     (let s = dropWhile isWhiteSpace str;
          sign = (if take 1 s = ''-'' then - 1 else 1);
          s1 = (if take 1 s = ''-'' \<or> take 1 s = ''+'' then drop 1 s else s);
          hex = (take 2 s1 = ''0x'' \<or> take 2 s1 = ''0X'');
          radix = (if hex then 16 else 10);
          s2 = (if hex then drop 2 s1 else s1);
          z = takeWhile (\<lambda>c. digitValue c < radix) s2
      in if z = [] then None
         else Some (sign * int (foldl (\<lambda>acc c. acc * radix + digitValue c) 0 z)))"

text \<open>A numeric year parameter: decimal digits only, at least one; and its value.\<close>

definition isDigit :: "char \<Rightarrow> bool" where
  "isDigit c = (48 \<le> (of_char c :: nat) \<and> (of_char c :: nat) \<le> 57)"

definition numericYear :: "string \<Rightarrow> bool" where
  "numericYear s = (s \<noteq> [] \<and> list_all isDigit s)"

definition decimalValue :: "string \<Rightarrow> nat" where
  "decimalValue s = foldl (\<lambda>acc c. acc * 10 + (of_char c - 48)) 0 s"

text \<open>
  The handler answers with a status and a JSON body; the calls it makes to the store are
  recorded beside the response.
\<close>

datatype body = Message string | Revenue "monthEntry list"

datatype storeCall = Order_aggregate

record response =
  statusCode :: nat
  json :: body

definition revenueRoute :: "int \<Rightarrow> int \<Rightarrow> order list \<Rightarrow> string \<Rightarrow> response \<times> storeCall list" where
  "revenueRoute tz currentYear ords yearParam =
     (case parseInt yearParam of
        None \<Rightarrow> (\<lparr>statusCode = 400, json = Message ''Invalid year''\<rparr>, [])
      | Some year \<Rightarrow>
          if year < 2000 \<or> year > currentYear
          then (\<lparr>statusCode = 400, json = Message ''Invalid year''\<rparr>, [])
          else (\<lparr>statusCode = 200, json = Revenue (getMonthlyRevenue tz year ords)\<rparr>,
                [Order_aggregate]))"

section \<open>Example data\<close>

text \<open>A small store, used where a statement is evaluated on concrete documents.\<close>

definition exAccount :: account where
  "exAccount = \<lparr>a_id = ''65f1c0de00000000000000a1'', fullName = ''An Nguyen'',
                 email = ''an@example.com'', balance = 500000, role = User,
                 a_status = Active\<rparr>"

definition exCourse :: "bool \<Rightarrow> course" where
  "exCourse active = \<lparr>c_id = ''65f1c0de00000000000000c1'', c_name = ''Intro to Go'',
                       price = 100000, createdBy = ''65f1c0de00000000000000b1'',
                       isActive = active\<rparr>"

definition exOrder :: "orderStatus \<Rightarrow> order" where
  "exOrder s = \<lparr>o_id = ''65f1c0de00000000000000e1'', o_account = ''65f1c0de00000000000000a1'',
                o_paymentMethod = ''65f1c0de00000000000000f1'',
                totalAmount = 100000, status = s,
                createdAt = 1736899200000, updatedAt = 1736899200000\<rparr>"

text \<open>A pending order of another account.\<close>

definition exOtherOrder :: order where
  "exOtherOrder = \<lparr>o_id = ''65f1c0de00000000000000e2'', o_account = ''65f1c0de00000000000000a2'',
                    o_paymentMethod = ''65f1c0de00000000000000f1'',
                    totalAmount = 200000, status = Pending,
                    createdAt = 1736985600000, updatedAt = 1736985600000\<rparr>"

definition exDb :: "bool \<Rightarrow> orderStatus \<Rightarrow> db" where
  "exDb active s = \<lparr>accounts = [exAccount], courses = [exCourse active], paymentMethods = [],
                     orders = [exOrder s, exOtherOrder], orderDetails = []\<rparr>"

text \<open>
  A request, a clock and fresh ids for one run of \<open>createOrder\<close>, and stand-ins for the
  three library functions, used only to evaluate examples: the encoder follows the
  \<open>application/x-www-form-urlencoded\<close> rules on ASCII, the number printer is right for
  integral amounts, and the digest is a tagged concatenation in place of HMAC-SHA-512.
\<close>

definition exClock :: localTime where
  "exClock = \<lparr>getFullYear = 2025, getMonth = 0, getDate = 1,
               getHours = 0, getMinutes = 0, getSeconds = 0\<rparr>"

definition exEnv :: env where
  "exEnv = \<lparr>newPaymentMethodId = ''65f1c0de00000000000000f1'',
             newOrderId = ''65f1c0de00000000000000d1'',
             newOrderDetailId = ''65f1c0de00000000000000d2'',
             now = 1735689600000, clock = exClock\<rparr>"

definition exReq :: request where
  "exReq = \<lparr>ip = Some ''127.0.0.1''\<rparr>"

definition exEncodeChar :: "char \<Rightarrow> string" where
  "exEncodeChar c =
     (let n = (of_char c :: nat)
      in if (48 \<le> n \<and> n \<le> 57) \<or> (65 \<le> n \<and> n \<le> 90) \<or> (97 \<le> n \<and> n \<le> 122)
            \<or> c \<in> set ''*-._'' then [c]
         else if c = CHR '' '' then ''+''
         else [CHR ''%'', ''0123456789ABCDEF'' ! (n div 16), ''0123456789ABCDEF'' ! (n mod 16)])"

definition exLib :: lib where
  "exLib = \<lparr>hmacSha512Hex = (\<lambda>key msg. ''hmac:'' @ key @ '':'' @ msg),
             formUrlEncode = (\<lambda>s. concat (map exEncodeChar s)),
             numberToString = (\<lambda>x. (if x < 0 then ''-'' else []) @ showNat (nat \<lfloor>\<bar>x\<bar>\<rfloor>))\<rparr>"



definition exCreatedDb :: db where
  "exCreatedDb =
     \<lparr>accounts = [exAccount], courses = [exCourse True],
      paymentMethods = [\<lparr>pm_id = ''65f1c0de00000000000000f1'', pm_name = VNPay\<rparr>],
      orders = [exOrder Pending, exOtherOrder,
                \<lparr>o_id = ''65f1c0de00000000000000d1'', o_account = ''65f1c0de00000000000000a1'',
                  o_paymentMethod = ''65f1c0de00000000000000f1'',
                  totalAmount = 100000, status = Pending,
                  createdAt = 1735689600000, updatedAt = 1735689600000\<rparr>],
      orderDetails = [\<lparr>od_id = ''65f1c0de00000000000000d2'', od_order = ''65f1c0de00000000000000d1'',
                        od_course = ''65f1c0de00000000000000c1'',
                        quantity = 1, od_price = 100000, isFinishCourse = False,
                        timeFinishCourse = None, certificateOfCompletion = None\<rparr>]\<rparr>"

definition exCreatedResult :: "(objectId \<times> string) serviceResult" where
  "exCreatedResult =
     \<lparr>r_status = 200, r_message = ''Order created successfully'',
      r_data = (''65f1c0de00000000000000d1'',
                vnpayUrl exLib (paymentParams exLib exEnv exReq 100000
                                  ''65f1c0de00000000000000d1'' ''Intro to Go''))\<rparr>"

text \<open>Orders for the revenue report of 2025: two completed in January, one still
  pending in February, one completed in the last millisecond of 2024.\<close>

definition exRevenueOrders :: "order list" where
  "exRevenueOrders =
     [\<lparr>o_id = ''65f1c0de00000000000000e1'', o_account = ''65f1c0de00000000000000a1'',
       o_paymentMethod = ''65f1c0de00000000000000f1'', totalAmount = 100000,
       status = Completed, createdAt = 1736899200000, updatedAt = 1736899200000\<rparr>,
      \<lparr>o_id = ''65f1c0de00000000000000e2'', o_account = ''65f1c0de00000000000000a1'',
       o_paymentMethod = ''65f1c0de00000000000000f1'', totalAmount = 4999 / 100,
       status = Completed, createdAt = 1737331200000, updatedAt = 1737331200000\<rparr>,
      \<lparr>o_id = ''65f1c0de00000000000000e3'', o_account = ''65f1c0de00000000000000a2'',
       o_paymentMethod = ''65f1c0de00000000000000f1'', totalAmount = 200000,
       status = Pending, createdAt = 1738368000000, updatedAt = 1738368000000\<rparr>,
      \<lparr>o_id = ''65f1c0de00000000000000e4'', o_account = ''65f1c0de00000000000000a2'',
       o_paymentMethod = ''65f1c0de00000000000000f1'', totalAmount = 50000,
       status = Completed, createdAt = 1735689599999, updatedAt = 1735689599999\<rparr>]"

text \<open>One completed order created at 18:30 UTC on 31 December 2024.\<close>

definition exNewYearOrders :: "order list" where
  "exNewYearOrders =
     [\<lparr>o_id = ''65f1c0de00000000000000e5'', o_account = ''65f1c0de00000000000000a1'',
       o_paymentMethod = ''65f1c0de00000000000000f1'', totalAmount = 100000,
       status = Completed, createdAt = 1735669800000, updatedAt = 1735669800000\<rparr>]"

section \<open>Properties of the ObjectId cast\<close>

lemma hexLower_idem: "hexLower (hexLower c) = hexLower c"
  by (simp add: hexLower_def)

lemma isHexDigit_hexLower: "isHexDigit c \<Longrightarrow> isHexDigit (hexLower c)"
  by (auto simp add: isHexDigit_def hexLower_def)

lemma castObjectId_Some:
  "castObjectId s = Some k \<longleftrightarrow> isValidObjectId s \<and> k = toObjectId s"
  by (auto simp add: castObjectId_def)

lemma castObjectId_None: "castObjectId s = None \<longleftrightarrow> \<not> isValidObjectId s"
  by (simp add: castObjectId_def)

lemma isValidObjectId_toObjectId: "isValidObjectId s \<Longrightarrow> isValidObjectId (toObjectId s)"
  by (simp add: isValidObjectId_def toObjectId_def list_all_iff isHexDigit_hexLower)

lemma toObjectId_idem: "toObjectId (toObjectId s) = toObjectId s"
  by (simp add: toObjectId_def hexLower_idem)

lemma castObjectId_idem: "castObjectId s = Some k \<Longrightarrow> castObjectId k = Some k"
  by (simp add: castObjectId_Some isValidObjectId_toObjectId toObjectId_idem)

lemma castObjectId_nonempty: "castObjectId s = Some k \<Longrightarrow> s \<noteq> []"
  by (auto simp add: castObjectId_Some isValidObjectId_def)

lemma ex_ids_valid:
  "isValidObjectId ''65f1c0de00000000000000a1''"
  "isValidObjectId ''65f1c0de00000000000000a2''"
  "isValidObjectId ''65f1c0de00000000000000c1''"
  "isValidObjectId ''65f1c0de00000000000000c9''"
  "isValidObjectId ''65f1c0de00000000000000e1''"
  "isValidObjectId ''65f1c0de00000000000000e2''"
  "isValidObjectId ''65f1c0de00000000000000e9''"
  "isValidObjectId ''65F1C0DE00000000000000E1''"
  by (simp_all add: isValidObjectId_def isHexDigit_def)

lemma ex_ids_cast:
  "castObjectId ''65f1c0de00000000000000a1'' = Some ''65f1c0de00000000000000a1''"
  "castObjectId ''65f1c0de00000000000000a2'' = Some ''65f1c0de00000000000000a2''"
  "castObjectId ''65f1c0de00000000000000c1'' = Some ''65f1c0de00000000000000c1''"
  "castObjectId ''65f1c0de00000000000000c9'' = Some ''65f1c0de00000000000000c9''"
  "castObjectId ''65f1c0de00000000000000e1'' = Some ''65f1c0de00000000000000e1''"
  "castObjectId ''65f1c0de00000000000000e2'' = Some ''65f1c0de00000000000000e2''"
  "castObjectId ''65f1c0de00000000000000e9'' = Some ''65f1c0de00000000000000e9''"
  "castObjectId ''65F1C0DE00000000000000E1'' = Some ''65f1c0de00000000000000e1''"
  by (simp_all add: castObjectId_def ex_ids_valid toObjectId_def hexLower_def)


section \<open>Properties of updateOrderStatus\<close>

lemma find_Some_holds: "find P xs = Some x \<Longrightarrow> P x"
  by (induction xs) (simp_all split: if_splits)

lemma find_id_Order_save_same:
  "find (\<lambda>z. o_id z = o_id y) xs \<noteq> None \<Longrightarrow>
   find (\<lambda>z. o_id z = o_id y) (Order_save y xs) = Some y"
  by (induction xs) (simp_all split: if_splits)

lemma find_id_Order_save_other:
  "i \<noteq> o_id y \<Longrightarrow> find (\<lambda>z. o_id z = i) (Order_save y xs) = find (\<lambda>z. o_id z = i) xs"
  by (induction xs) (simp_all split: if_splits)

lemma find_match_imp_find_id:
  "find (\<lambda>z. o_id z = i \<and> Q z) xs = Some x \<Longrightarrow> find (\<lambda>z. o_id z = i) xs \<noteq> None"
  by (induction xs) (simp_all split: if_splits)

lemma find_Order_save_match:
  "find (\<lambda>z. o_id z = i \<and> o_account z = a) xs = Some x \<Longrightarrow> o_id y = i \<Longrightarrow> o_account y = a \<Longrightarrow>
   find (\<lambda>z. o_id z = i \<and> o_account z = a) (Order_save y xs) = Some y"
proof (induction xs)
  case Nil
  then show ?case by simp
next
  case (Cons z zs)
  show ?case
  proof (cases "o_id z = i")
    case True
    with Cons.prems show ?thesis by simp
  next
    case False
    with Cons show ?thesis by simp
  qed
qed

lemma Order_save_ids: "map o_id (Order_save y xs) = map o_id xs"
  by (induction xs) simp_all

lemma Order_save_nth_other:
  "j < length xs \<Longrightarrow> o_id (xs ! j) \<noteq> o_id y \<Longrightarrow> Order_save y xs ! j = xs ! j"
proof (induction xs arbitrary: j)
  case Nil
  then show ?case by simp
next
  case (Cons z zs)
  show ?case
  proof (cases j)
    case 0
    with Cons.prems show ?thesis by simp
  next
    case (Suc n)
    with Cons show ?thesis by simp
  qed
qed

lemma Order_findOne_cast:
  "castObjectId oid = Some i \<Longrightarrow> castObjectId acc = Some a \<Longrightarrow>
   Order_findOne d (Some oid) (Some acc)
     = Inr (find (\<lambda>z. o_id z = i \<and> o_account z = a) (orders d))"
  by (simp add: Order_findOne_def castFilter_def)

lemma Order_findOne_args:
  assumes "Order_findOne d orderId accountId = Inr (Some x)"
  shows "\<exists>oid acc. orderId = Some oid \<and> accountId = Some acc
           \<and> castObjectId oid = Some (o_id x) \<and> castObjectId acc = Some (o_account x)"
proof -
  from assms obtain i a where c: "castFilter ''_id'' orderId = Inr i"
      "castFilter ''account'' accountId = Inr a"
      and f: "find (\<lambda>z. Some (o_id z) = i \<and> Some (o_account z) = a) (orders d) = Some x"
    by (auto simp add: Order_findOne_def split: sum.splits)
  from find_Some_holds [OF f] have ia: "i = Some (o_id x)" "a = Some (o_account x)" by simp_all
  from c ia show ?thesis
    by (auto simp add: castFilter_def split: option.splits)
qed

lemma Order_findOne_find:
  assumes "Order_findOne d orderId accountId = Inr (Some x)"
  shows "find (\<lambda>z. o_id z = o_id x \<and> o_account z = o_account x) (orders d) = Some x"
proof -
  from Order_findOne_args [OF assms] obtain oid acc where h: "orderId = Some oid"
    "accountId = Some acc" "castObjectId oid = Some (o_id x)"
    "castObjectId acc = Some (o_account x)" by blast
  from assms show ?thesis
    unfolding h(1,2) Order_findOne_cast [OF h(3,4)] by simp
qed

lemma Order_findOne_not_falsy:
  "Order_findOne d orderId accountId = Inr (Some x) \<Longrightarrow> \<not> falsy orderId"
  by (drule Order_findOne_args) (auto simp add: falsy_def dest: castObjectId_nonempty)

lemma updateOrderStatus_success:
  assumes f: "Order_findOne d orderId accountId = Inr (Some x)"
    and s: "status x \<noteq> Completed"
  shows "updateOrderStatus t d orderId accountId =
          (d\<lparr>orders := Order_save (x\<lparr>status := Completed, updatedAt := t\<rparr>) (orders d)\<rparr>,
           Inr \<lparr>r_status = 200, r_message = ''Order status updated to Paid successfully'',
                r_data = orderId\<rparr>)"
  using f s Order_findOne_not_falsy [OF f] by (simp add: updateOrderStatus_def)

lemma updateOrderStatus_paid:
  assumes f: "Order_findOne d orderId accountId = Inr (Some x)"
    and s: "status x = Completed"
  shows "updateOrderStatus t d orderId accountId = (d, Inl (BadRequest ''Order is already paid''))"
  using f s Order_findOne_not_falsy [OF f] by (simp add: updateOrderStatus_def)

lemma Order_findOne_after_save:
  assumes f: "Order_findOne d orderId accountId = Inr (Some x)"
  shows "Order_findOne (d\<lparr>orders := Order_save (x\<lparr>status := Completed, updatedAt := t\<rparr>) (orders d)\<rparr>)
           orderId accountId = Inr (Some (x\<lparr>status := Completed, updatedAt := t\<rparr>))"
proof -
  from Order_findOne_args [OF f] obtain oid acc where h: "orderId = Some oid"
    "accountId = Some acc" "castObjectId oid = Some (o_id x)"
    "castObjectId acc = Some (o_account x)" by blast
  have "find (\<lambda>z. o_id z = o_id x \<and> o_account z = o_account x)
               (Order_save (x\<lparr>status := Completed, updatedAt := t\<rparr>) (orders d))
             = Some (x\<lparr>status := Completed, updatedAt := t\<rparr>)"
    by (rule find_Order_save_match [OF Order_findOne_find [OF f]]) simp_all
  then show ?thesis
    unfolding h(1,2) Order_findOne_cast [OF h(3,4)] by simp
qed

lemma statusOf_cast:
  "castObjectId i = Some k \<Longrightarrow>
   statusOf d i = map_option status (find (\<lambda>z. o_id z = k) (orders d))"
  by (simp add: statusOf_def)

lemma statusOf_found:
  assumes f: "Order_findOne d orderId accountId = Inr (Some x)"
    and c: "castObjectId i = Some (o_id x)"
  shows "statusOf d i \<noteq> None"
proof -
  have "find (\<lambda>z. o_id z = o_id x) (orders d) \<noteq> None"
    by (rule find_match_imp_find_id [OF Order_findOne_find [OF f]])
  then show ?thesis by (simp add: statusOf_cast [OF c])
qed

lemma statusOf_after_save:
  assumes f: "Order_findOne d orderId accountId = Inr (Some x)"
    and c: "castObjectId i = Some (o_id x)"
  shows "statusOf (d\<lparr>orders := Order_save (x\<lparr>status := Completed, updatedAt := t\<rparr>) (orders d)\<rparr>) i
           = Some Completed"
proof -
  have "find (\<lambda>z. o_id z = o_id x) (orders d) \<noteq> None"
    by (rule find_match_imp_find_id [OF Order_findOne_find [OF f]])
  then have "find (\<lambda>z. o_id z = o_id (x\<lparr>status := Completed, updatedAt := t\<rparr>)) (orders d) \<noteq> None"
    by simp
  then have "find (\<lambda>z. o_id z = o_id (x\<lparr>status := Completed, updatedAt := t\<rparr>))
               (Order_save (x\<lparr>status := Completed, updatedAt := t\<rparr>) (orders d))
             = Some (x\<lparr>status := Completed, updatedAt := t\<rparr>)"
    by (rule find_id_Order_save_same)
  then show ?thesis by (simp add: statusOf_cast [OF c])
qed

lemma statusOf_other_after_save:
  "castObjectId i \<noteq> Some (o_id y) \<Longrightarrow>
   statusOf (d\<lparr>orders := Order_save y (orders d)\<rparr>) i = statusOf d i"
  by (cases "castObjectId i") (simp_all add: statusOf_def find_id_Order_save_other)

lemma updateOrderStatus_cases:
  "(\<exists>x. Order_findOne d orderId accountId = Inr (Some x) \<and> status x \<noteq> Completed)
   \<or> (\<exists>e. updateOrderStatus t d orderId accountId = (d, Inl e))"
proof (cases "Order_findOne d orderId accountId")
  case (Inl e)
  then show ?thesis by (simp add: updateOrderStatus_def)
next
  case (Inr r)
  show ?thesis
  proof (cases r)
    case None
    with Inr show ?thesis by (simp add: updateOrderStatus_def)
  next
    case (Some x)
    with Inr show ?thesis
      by (cases "status x = Completed") (simp_all add: updateOrderStatus_paid)
  qed
qed

lemma updateOrderStatus_Inl_unchanged:
  assumes "snd (updateOrderStatus t d orderId accountId) = Inl e"
  shows "fst (updateOrderStatus t d orderId accountId) = d"
  using updateOrderStatus_cases [of d orderId accountId t] assms
  by (auto simp add: updateOrderStatus_success)

lemma updateOrderStatus_step:
  "statusOf (fst (updateOrderStatus t d orderId accountId)) i = statusOf d i
   \<or> (statusOf d i \<in> {Some Pending, Some Cancelled}
      \<and> statusOf (fst (updateOrderStatus t d orderId accountId)) i = Some Completed
      \<and> (\<exists>x. Order_findOne d orderId accountId = Inr (Some x)
               \<and> castObjectId i = Some (o_id x)))"
proof (cases "\<exists>x. Order_findOne d orderId accountId = Inr (Some x) \<and> status x \<noteq> Completed")
  case False
  with updateOrderStatus_cases [of d orderId accountId t]
  have "fst (updateOrderStatus t d orderId accountId) = d" by auto
  then show ?thesis by simp
next
  case True
  then obtain x where f: "Order_findOne d orderId accountId = Inr (Some x)"
    and s: "status x \<noteq> Completed" by blast
  let ?y = "x\<lparr>status := Completed, updatedAt := t\<rparr>"
  let ?d1 = "d\<lparr>orders := Order_save ?y (orders d)\<rparr>"
  have run: "fst (updateOrderStatus t d orderId accountId) = ?d1"
    by (simp add: updateOrderStatus_success [OF f s])
  show ?thesis
  proof (cases "castObjectId i = Some (o_id x)")
    case True
    have after: "statusOf ?d1 i = Some Completed"
      by (rule statusOf_after_save [OF f True])
    from statusOf_found [OF f True] obtain st where st: "statusOf d i = Some st" by auto
    from Order_findOne_find [OF f] have "find (\<lambda>z. o_id z = o_id x) (orders d) \<noteq> None"
      by (rule find_match_imp_find_id)
    show ?thesis using after st run f True by (cases st) simp_all
  next
    case False
    then have "statusOf ?d1 i = statusOf d i"
      using statusOf_other_after_save [of i ?y d] by simp
    with run show ?thesis by simp
  qed
qed

text \<open>
  Claim C1. Let an order be the one that \<open>findOne\<close> returns for \<open>orderId\<close> and \<open>accountId\<close>
  (it exists and its account is \<open>accountId\<close>), with status Pending. Then the first call of
  \<open>updateOrderStatus\<close> succeeds and the stored status becomes Completed; the second call,
  on the store the first one left, fails with BadRequest and returns that store unchanged,
  so the status stays Completed.
\<close>

theorem updateOrderStatus_twice:
  assumes f: "Order_findOne d (Some oid) (Some acc) = Inr (Some x)"
    and s: "status x = Pending"
  shows "\<exists>d1 r. updateOrderStatus t1 d (Some oid) (Some acc) = (d1, Inr r)
           \<and> statusOf d1 oid = Some Completed
           \<and> updateOrderStatus t2 d1 (Some oid) (Some acc)
               = (d1, Inl (BadRequest ''Order is already paid''))"
proof -
  let ?y = "x\<lparr>status := Completed, updatedAt := t1\<rparr>"
  let ?d1 = "d\<lparr>orders := Order_save ?y (orders d)\<rparr>"
  from s have s': "status x \<noteq> Completed" by simp
  from Order_findOne_args [OF f] have c: "castObjectId oid = Some (o_id x)" by simp
  have first: "updateOrderStatus t1 d (Some oid) (Some acc) =
      (?d1, Inr \<lparr>r_status = 200, r_message = ''Order status updated to Paid successfully'',
                 r_data = Some oid\<rparr>)"
    by (rule updateOrderStatus_success [OF f s'])
  have st: "statusOf ?d1 oid = Some Completed"
    by (rule statusOf_after_save [OF f c])
  have "Order_findOne ?d1 (Some oid) (Some acc) = Inr (Some ?y)"
    by (rule Order_findOne_after_save [OF f])
  then have second: "updateOrderStatus t2 ?d1 (Some oid) (Some acc)
      = (?d1, Inl (BadRequest ''Order is already paid''))"
    by (rule updateOrderStatus_paid) simp
  from first st second show ?thesis by blast
qed

theorem updateOrderStatus_twice_witness:
  "\<exists>d1 r. updateOrderStatus 8 (exDb True Pending)
             (Some ''65f1c0de00000000000000e1'') (Some ''65f1c0de00000000000000a1'') = (d1, Inr r)
      \<and> statusOf d1 ''65f1c0de00000000000000e1'' = Some Completed
      \<and> updateOrderStatus 9 d1 (Some ''65f1c0de00000000000000e1'') (Some ''65f1c0de00000000000000a1'')
          = (d1, Inl (BadRequest ''Order is already paid''))"
  using updateOrderStatus_twice [of "exDb True Pending" "''65f1c0de00000000000000e1''"
          "''65f1c0de00000000000000a1''" "exOrder Pending" 8 9]
  by (simp add: exDb_def exOrder_def Order_findOne_def castFilter_def ex_ids_cast)

text \<open>
  Claim C2, as stated, fails for a Cancelled order: the only status \<open>updateOrderStatus\<close>
  rejects is Completed, so the owner's call on a Cancelled order succeeds and stores
  Completed.
\<close>

theorem updateOrderStatus_cancelled_counterexample:
  "statusOf (exDb True Cancelled) ''65f1c0de00000000000000e1'' = Some Cancelled
   \<and> snd (updateOrderStatus 9 (exDb True Cancelled)
            (Some ''65f1c0de00000000000000e1'') (Some ''65f1c0de00000000000000a1''))
       = Inr \<lparr>r_status = 200, r_message = ''Order status updated to Paid successfully'',
              r_data = Some ''65f1c0de00000000000000e1''\<rparr>
   \<and> statusOf (fst (updateOrderStatus 9 (exDb True Cancelled)
                     (Some ''65f1c0de00000000000000e1'') (Some ''65f1c0de00000000000000a1'')))
        ''65f1c0de00000000000000e1''
       = Some Completed"
  by (simp add: exDb_def exOrder_def exOtherOrder_def updateOrderStatus_def Order_findOne_def
        castFilter_def falsy_def statusOf_def ex_ids_cast)

text \<open>
  Claim C2, amended. Completed is the terminal status of \<open>updateOrderStatus\<close>: when the
  order that \<open>findOne\<close> returns for \<open>orderId\<close> and \<open>accountId\<close> is Completed, the call fails
  with BadRequest and returns the store unchanged; when it has any other status (Pending
  or Cancelled) the call succeeds and the stored status of that order becomes Completed,
  while every other order id keeps its status, no order is added or removed, every order
  with another id is the document it was, and the other collections are as they were.
  A call that fails, for whatever reason, returns the store unchanged. So for every call
  and every order id the stored status is either left as it was, or goes from Pending or
  Cancelled to Completed and the id is that of the order found for the caller.
\<close>

theorem updateOrderStatus_transitions:
  "(\<forall>x. Order_findOne d orderId accountId = Inr (Some x) \<longrightarrow>
       (status x = Completed \<longrightarrow>
          updateOrderStatus t d orderId accountId = (d, Inl (BadRequest ''Order is already paid'')))
     \<and> (status x \<noteq> Completed \<longrightarrow>
          snd (updateOrderStatus t d orderId accountId)
            = Inr \<lparr>r_status = 200, r_message = ''Order status updated to Paid successfully'',
                   r_data = orderId\<rparr>
          \<and> statusOf (fst (updateOrderStatus t d orderId accountId)) (o_id x) = Some Completed
          \<and> (\<forall>i. castObjectId i \<noteq> Some (o_id x) \<longrightarrow>
                 statusOf (fst (updateOrderStatus t d orderId accountId)) i = statusOf d i)
          \<and> map o_id (orders (fst (updateOrderStatus t d orderId accountId))) = map o_id (orders d)
          \<and> (\<forall>j < length (orders d). o_id (orders d ! j) \<noteq> o_id x \<longrightarrow>
                 orders (fst (updateOrderStatus t d orderId accountId)) ! j = orders d ! j)
          \<and> (fst (updateOrderStatus t d orderId accountId))\<lparr>orders := orders d\<rparr> = d))
   \<and> (\<forall>e. snd (updateOrderStatus t d orderId accountId) = Inl e \<longrightarrow>
          fst (updateOrderStatus t d orderId accountId) = d)
   \<and> (\<forall>i. statusOf (fst (updateOrderStatus t d orderId accountId)) i = statusOf d i
          \<or> (statusOf d i \<in> {Some Pending, Some Cancelled}
             \<and> statusOf (fst (updateOrderStatus t d orderId accountId)) i = Some Completed
             \<and> (\<exists>x. Order_findOne d orderId accountId = Inr (Some x)
                      \<and> castObjectId i = Some (o_id x))))"
proof (intro conjI allI impI)
  fix x assume "Order_findOne d orderId accountId = Inr (Some x)" "status x = Completed"
  then show "updateOrderStatus t d orderId accountId = (d, Inl (BadRequest ''Order is already paid''))"
    by (rule updateOrderStatus_paid)
next
  fix x assume f: "Order_findOne d orderId accountId = Inr (Some x)" and s: "status x \<noteq> Completed"
  let ?y = "x\<lparr>status := Completed, updatedAt := t\<rparr>"
  note run = updateOrderStatus_success [OF f s, of t]
  from Order_findOne_args [OF f] obtain oid where "castObjectId oid = Some (o_id x)" by blast
  then have c: "castObjectId (o_id x) = Some (o_id x)" by (rule castObjectId_idem)
  show "snd (updateOrderStatus t d orderId accountId)
            = Inr \<lparr>r_status = 200, r_message = ''Order status updated to Paid successfully'',
                   r_data = orderId\<rparr>"
    by (simp add: run)
  show "statusOf (fst (updateOrderStatus t d orderId accountId)) (o_id x) = Some Completed"
    using statusOf_after_save [OF f c, of t] by (simp add: run)
  show "map o_id (orders (fst (updateOrderStatus t d orderId accountId))) = map o_id (orders d)"
    by (simp add: run Order_save_ids)
  show "(fst (updateOrderStatus t d orderId accountId))\<lparr>orders := orders d\<rparr> = d"
    by (simp add: run)
  {
    fix i assume "castObjectId i \<noteq> Some (o_id x)"
    then show "statusOf (fst (updateOrderStatus t d orderId accountId)) i = statusOf d i"
      using statusOf_other_after_save [of i ?y d] by (simp add: run)
  }
  {
    fix j assume "j < length (orders d)" "o_id (orders d ! j) \<noteq> o_id x"
    then show "orders (fst (updateOrderStatus t d orderId accountId)) ! j = orders d ! j"
      using Order_save_nth_other [of j "orders d" ?y] by (simp add: run)
  }
next
  fix e assume "snd (updateOrderStatus t d orderId accountId) = Inl e"
  then show "fst (updateOrderStatus t d orderId accountId) = d"
    by (rule updateOrderStatus_Inl_unchanged)
next
  fix i
  show "statusOf (fst (updateOrderStatus t d orderId accountId)) i = statusOf d i
          \<or> (statusOf d i \<in> {Some Pending, Some Cancelled}
             \<and> statusOf (fst (updateOrderStatus t d orderId accountId)) i = Some Completed
             \<and> (\<exists>x. Order_findOne d orderId accountId = Inr (Some x)
                      \<and> castObjectId i = Some (o_id x)))"
    by (rule updateOrderStatus_step)
qed

theorem updateOrderStatus_transitions_witness:
  "statusOf (exDb True Cancelled) ''65f1c0de00000000000000e1'' = Some Cancelled
   \<and> statusOf (fst (updateOrderStatus 9 (exDb True Cancelled)
                     (Some ''65F1C0DE00000000000000E1'') (Some ''65f1c0de00000000000000a1'')))
        ''65f1c0de00000000000000e1'' = Some Completed
   \<and> statusOf (fst (updateOrderStatus 9 (exDb True Cancelled)
                     (Some ''65F1C0DE00000000000000E1'') (Some ''65f1c0de00000000000000a1'')))
        ''65f1c0de00000000000000e2'' = Some Pending
   \<and> orders (fst (updateOrderStatus 9 (exDb True Cancelled)
                   (Some ''65F1C0DE00000000000000E1'') (Some ''65f1c0de00000000000000a1''))) ! 1
       = exOtherOrder
   \<and> updateOrderStatus 9 (exDb True Completed)
        (Some ''65f1c0de00000000000000e1'') (Some ''65f1c0de00000000000000a1'')
       = (exDb True Completed, Inl (BadRequest ''Order is already paid''))"
proof -
  have f: "Order_findOne (exDb True Cancelled)
             (Some ''65F1C0DE00000000000000E1'') (Some ''65f1c0de00000000000000a1'')
           = Inr (Some (exOrder Cancelled))"
    and g: "Order_findOne (exDb True Completed)
             (Some ''65f1c0de00000000000000e1'') (Some ''65f1c0de00000000000000a1'')
           = Inr (Some (exOrder Completed))"
    by (simp_all add: exDb_def exOrder_def Order_findOne_def castFilter_def ex_ids_cast)
  have st: "statusOf (exDb True Cancelled) ''65f1c0de00000000000000e1'' = Some Cancelled"
    "statusOf (exDb True Cancelled) ''65f1c0de00000000000000e2'' = Some Pending"
    by (simp_all add: statusOf_def ex_ids_cast exDb_def exOrder_def exOtherOrder_def)
  have o: "orders (exDb True Cancelled) ! Suc 0 = exOtherOrder"
    "length (orders (exDb True Cancelled)) = 2"
    "o_id exOtherOrder \<noteq> ''65f1c0de00000000000000e1''"
    "status (exOrder Cancelled) \<noteq> Completed" "status (exOrder Completed) = Completed"
    "o_id (exOrder Cancelled) = ''65f1c0de00000000000000e1''"
    by (simp_all add: exDb_def exOrder_def exOtherOrder_def)
  let ?c = "updateOrderStatus 9 (exDb True Cancelled)
              (Some ''65F1C0DE00000000000000E1'') (Some ''65f1c0de00000000000000a1'')"
  have paid: "statusOf (fst ?c) ''65f1c0de00000000000000e1'' = Some Completed"
    and others: "\<forall>i. castObjectId i \<noteq> Some ''65f1c0de00000000000000e1'' \<longrightarrow>
                   statusOf (fst ?c) i = statusOf (exDb True Cancelled) i"
    and docs: "\<forall>j<2. o_id (orders (exDb True Cancelled) ! j) \<noteq> ''65f1c0de00000000000000e1'' \<longrightarrow>
                   orders (fst ?c) ! j = orders (exDb True Cancelled) ! j"
    using updateOrderStatus_transitions [of "exDb True Cancelled"
            "Some ''65F1C0DE00000000000000E1''" "Some ''65f1c0de00000000000000a1''" 9]
    unfolding f by (simp_all add: o)
  from others have other: "statusOf (fst ?c) ''65f1c0de00000000000000e2'' = Some Pending"
    by (simp add: ex_ids_cast st)
  from docs [rule_format, of 1] have doc: "orders (fst ?c) ! 1 = exOtherOrder"
    by (simp add: o)
  have rejected: "updateOrderStatus 9 (exDb True Completed)
        (Some ''65f1c0de00000000000000e1'') (Some ''65f1c0de00000000000000a1'')
       = (exDb True Completed, Inl (BadRequest ''Order is already paid''))"
    using updateOrderStatus_transitions [of "exDb True Completed"
            "Some ''65f1c0de00000000000000e1''" "Some ''65f1c0de00000000000000a1''" 9]
    unfolding g by (simp add: o)
  from st(1) paid other doc rejected show ?thesis by simp
qed




section \<open>Properties of createOrder\<close>

lemma createOrder_invalid:
  "falsy courseId \<or> falsy accountId \<Longrightarrow>
   createOrder L E d req courseId accountId
     = (d, Inl (BadRequest ''Course ID and account ID are required''))"
  by (simp add: createOrder_def)

lemma not_falsy: "\<not> falsy v \<Longrightarrow> \<exists>s. v = Some s \<and> s \<noteq> []"
  by (cases v) (simp_all add: falsy_def)

lemma createOrder_course_error:
  assumes "cid \<noteq> []" "\<not> falsy accountId" "Course_findById d cid = Inl e"
  shows "createOrder L E d req (Some cid) accountId = (d, Inl e)"
  using assms by (simp add: createOrder_def falsy_def)

lemma createOrder_unavailable:
  assumes "cid \<noteq> []" "\<not> falsy accountId"
    and "Course_findById d cid = Inr r"
    and "case r of None \<Rightarrow> True | Some c \<Rightarrow> \<not> isActive c"
  shows "createOrder L E d req (Some cid) accountId
           = (d, Inl (NotFound ''Course not found or inactive''))"
proof (cases r)
  case None
  with assms(1-3) show ?thesis by (simp add: createOrder_def falsy_def)
next
  case (Some c)
  with assms show ?thesis by (simp add: createOrder_def falsy_def)
qed

lemma createOrder_account_error:
  assumes "cid \<noteq> []" "aid \<noteq> []" "Course_findById d cid = Inr (Some crs)" "isActive crs"
    "Account_findById d aid = Inl e"
  shows "createOrder L E d req (Some cid) (Some aid) = (d, Inl e)"
  using assms by (simp add: createOrder_def falsy_def)

lemma createOrder_no_account:
  assumes "cid \<noteq> []" "aid \<noteq> []" "Course_findById d cid = Inr (Some crs)" "isActive crs"
    "Account_findById d aid = Inr None"
  shows "createOrder L E d req (Some cid) (Some aid) = (d, Inl (NotFound ''Account not found''))"
  using assms by (simp add: createOrder_def falsy_def)

lemma createOrder_ok:
  assumes "cid \<noteq> []" "aid \<noteq> []" "Course_findById d cid = Inr (Some crs)" "isActive crs"
    "Account_findById d aid = Inr (Some acc)"
  shows "createOrder L E d req (Some cid) (Some aid) =
     ((fst (findOrCreateVNPay E d))
        \<lparr>orders := orders d @
           [\<lparr>o_id = newOrderId E, o_account = toObjectId aid,
             o_paymentMethod = pm_id (snd (findOrCreateVNPay E d)),
             totalAmount = price crs * 1, status = Pending,
             createdAt = now E, updatedAt = now E\<rparr>],
         orderDetails := orderDetails d @
           [\<lparr>od_id = newOrderDetailId E, od_order = newOrderId E, od_course = toObjectId cid,
             quantity = 1, od_price = price crs, isFinishCourse = False,
             timeFinishCourse = None, certificateOfCompletion = None\<rparr>]\<rparr>,
      Inr \<lparr>r_status = 200, r_message = ''Order created successfully'',
           r_data = (newOrderId E,
                     vnpayUrl L (paymentParams L E req (price crs * 1) (newOrderId E) (c_name crs)))\<rparr>)"
proof -
  have o: "orders (fst (findOrCreateVNPay E d)) = orders d"
    and od: "orderDetails (fst (findOrCreateVNPay E d)) = orderDetails d"
    by (simp_all add: findOrCreateVNPay_def Let_def split: option.splits)
  show ?thesis
    using assms by (simp add: createOrder_def falsy_def Let_def split_beta o od)
qed

text \<open>The outcomes of \<open>createOrder\<close>: the one success, or an error with the store as it was.\<close>

lemma createOrder_cases:
  "(\<exists>cid aid crs acc. courseId = Some cid \<and> cid \<noteq> [] \<and> accountId = Some aid \<and> aid \<noteq> []
       \<and> Course_findById d cid = Inr (Some crs) \<and> isActive crs
       \<and> Account_findById d aid = Inr (Some acc))
   \<or> (\<exists>e. createOrder L E d req courseId accountId = (d, Inl e))"
proof (cases "falsy courseId \<or> falsy accountId")
  case True
  then show ?thesis using createOrder_invalid [OF True, of L E d req] by simp
next
  case False
  then obtain cid aid where ids: "courseId = Some cid" "cid \<noteq> []" "accountId = Some aid" "aid \<noteq> []"
    using not_falsy [of courseId] not_falsy [of accountId] by auto
  from False have nf: "\<not> falsy accountId" by simp
  show ?thesis
  proof (cases "Course_findById d cid")
    case (Inl e)
    then show ?thesis
      using ids createOrder_course_error [OF ids(2) nf Inl, of L E req] by simp
  next
    case (Inr r)
    show ?thesis
    proof (cases "case r of None \<Rightarrow> True | Some c \<Rightarrow> \<not> isActive c")
      case True
      then show ?thesis
        using ids createOrder_unavailable [OF ids(2) nf Inr True, of L E req] by simp
    next
      case False
      then obtain crs where crs: "r = Some crs" "isActive crs"
        by (cases r) simp_all
      from Inr crs have c: "Course_findById d cid = Inr (Some crs)" by simp
      show ?thesis
      proof (cases "Account_findById d aid")
        case (Inl e)
        then show ?thesis
          using ids createOrder_account_error [OF ids(2) ids(4) c crs(2) Inl, of L E req] by simp
      next
        case (Inr ra)
        show ?thesis
        proof (cases ra)
          case None
          with Inr have "Account_findById d aid = Inr None" by simp
          then show ?thesis
            using ids createOrder_no_account [OF ids(2) ids(4) c crs(2), of L E req] by simp
        next
          case (Some acc)
          with Inr ids c crs(2) show ?thesis by simp
        qed
      qed
    qed
  qed
qed

lemma createOrder_Inr_cases:
  assumes "snd (createOrder L E d req courseId accountId) = Inr r"
  shows "\<exists>cid aid crs acc. courseId = Some cid \<and> cid \<noteq> [] \<and> accountId = Some aid \<and> aid \<noteq> []
           \<and> Course_findById d cid = Inr (Some crs) \<and> isActive crs
           \<and> Account_findById d aid = Inr (Some acc)"
  using createOrder_cases [of courseId accountId d L E req] assms by auto

lemma findOrCreateVNPay_frame:
  "accounts (fst (findOrCreateVNPay E d)) = accounts d"
  "courses (fst (findOrCreateVNPay E d)) = courses d"
  "orders (fst (findOrCreateVNPay E d)) = orders d"
  "orderDetails (fst (findOrCreateVNPay E d)) = orderDetails d"
  by (simp_all add: findOrCreateVNPay_def Let_def split: option.splits)

lemma findOrCreateVNPay_paymentMethods:
  "paymentMethods (fst (findOrCreateVNPay E d)) =
     (case find (\<lambda>p. pm_name p = VNPay) (paymentMethods d) of
        Some p \<Rightarrow> paymentMethods d
      | None \<Rightarrow> paymentMethods d @ [\<lparr>pm_id = newPaymentMethodId E, pm_name = VNPay\<rparr>])"
  by (simp add: findOrCreateVNPay_def Let_def split: option.splits)

lemma findOrCreateVNPay_pm:
  "pm_id (snd (findOrCreateVNPay E d)) =
     (case find (\<lambda>p. pm_name p = VNPay) (paymentMethods d) of
        Some p \<Rightarrow> pm_id p | None \<Rightarrow> newPaymentMethodId E)"
  by (simp add: findOrCreateVNPay_def Let_def split: option.splits)

lemma createOrder_Inl_unchanged:
  assumes "snd (createOrder L E d req courseId accountId) = Inl e"
  shows "fst (createOrder L E d req courseId accountId) = d"
proof -
  from createOrder_cases [of courseId accountId d L E req]
  show ?thesis
  proof
    assume "\<exists>cid aid crs acc. courseId = Some cid \<and> cid \<noteq> [] \<and> accountId = Some aid \<and> aid \<noteq> []
       \<and> Course_findById d cid = Inr (Some crs) \<and> isActive crs
       \<and> Account_findById d aid = Inr (Some acc)"
    then obtain cid aid crs acc where h: "courseId = Some cid" "cid \<noteq> []" "accountId = Some aid"
      "aid \<noteq> []" "Course_findById d cid = Inr (Some crs)" "isActive crs"
      "Account_findById d aid = Inr (Some acc)"
      by blast
    from assms show ?thesis
      using createOrder_ok [OF h(2) h(4) h(5) h(6) h(7), of L E req] h(1,3) by simp
  next
    assume "\<exists>e. createOrder L E d req courseId accountId = (d, Inl e)"
    then show ?thesis by auto
  qed
qed

lemma Course_findById_id:
  "Course_findById d cid = Inr (Some crs) \<Longrightarrow> c_id crs = toObjectId cid"
  by (auto simp add: Course_findById_def castObjectId_Some split: option.splits
        dest: find_Some_holds)

text \<open>
  Claim C6. A successful \<open>createOrder\<close> appends exactly one order and exactly one order
  detail to the store. The order is Pending, belongs to the caller, refers to the VNPay
  payment method and has \<open>totalAmount = price \<times> 1\<close> for the price of the course found
  under \<open>courseId\<close>; the detail refers to that order and that course, with quantity 1,
  \<open>isFinishCourse\<close> false and the same course price. The detail holds the price as a
  value of its own: replacing the course collection afterwards does not change it.
\<close>

theorem createOrder_creates_pair:
  assumes "createOrder L E d req courseId accountId = (d', Inr r)"
  shows "\<exists>cid aid crs.
           courseId = Some cid \<and> accountId = Some aid \<and> Course_findById d cid = Inr (Some crs)
         \<and> c_id crs = toObjectId cid
         \<and> orders d' = orders d @
             [\<lparr>o_id = newOrderId E, o_account = toObjectId aid,
               o_paymentMethod = (case find (\<lambda>p. pm_name p = VNPay) (paymentMethods d) of
                                    Some p \<Rightarrow> pm_id p | None \<Rightarrow> newPaymentMethodId E),
               totalAmount = price crs * 1, status = Pending,
               createdAt = now E, updatedAt = now E\<rparr>]
         \<and> orderDetails d' = orderDetails d @
             [\<lparr>od_id = newOrderDetailId E, od_order = newOrderId E, od_course = toObjectId cid,
               quantity = 1, od_price = price crs, isFinishCourse = False,
               timeFinishCourse = None, certificateOfCompletion = None\<rparr>]
         \<and> fst (r_data r) = newOrderId E
         \<and> (\<forall>cs. orderDetails (d'\<lparr>courses := cs\<rparr>) = orderDetails d')"
proof -
  from assms have "snd (createOrder L E d req courseId accountId) = Inr r" by simp
  from createOrder_Inr_cases [OF this]
  obtain cid aid crs acc where h: "courseId = Some cid" "cid \<noteq> []" "accountId = Some aid"
    "aid \<noteq> []" "Course_findById d cid = Inr (Some crs)" "isActive crs"
    "Account_findById d aid = Inr (Some acc)"
    by blast
  from createOrder_ok [OF h(2) h(4) h(5) h(6) h(7), of L E req] assms h(1,3)
  have d': "d' = (fst (findOrCreateVNPay E d))
        \<lparr>orders := orders d @
           [\<lparr>o_id = newOrderId E, o_account = toObjectId aid,
             o_paymentMethod = pm_id (snd (findOrCreateVNPay E d)),
             totalAmount = price crs * 1, status = Pending,
             createdAt = now E, updatedAt = now E\<rparr>],
         orderDetails := orderDetails d @
           [\<lparr>od_id = newOrderDetailId E, od_order = newOrderId E, od_course = toObjectId cid,
             quantity = 1, od_price = price crs, isFinishCourse = False,
             timeFinishCourse = None, certificateOfCompletion = None\<rparr>]\<rparr>"
    and r: "r = \<lparr>r_status = 200, r_message = ''Order created successfully'',
           r_data = (newOrderId E,
                     vnpayUrl L (paymentParams L E req (price crs * 1) (newOrderId E) (c_name crs)))\<rparr>"
    by simp_all
  show ?thesis
    apply (rule exI [of _ cid], rule exI [of _ aid], rule exI [of _ crs])
    using h(1,3,5) Course_findById_id [OF h(5)] by (simp add: d' r findOrCreateVNPay_pm)
qed

text \<open>
  Claim C10. Whatever the arguments and whatever the outcome, \<open>createOrder\<close> returns the
  account and course collections as they were (no balance is debited, no price or active
  flag changes). A failed call leaves the payment methods, orders and order details as
  they were too. A successful call appends one order and one order detail, and appends
  one payment method named VNPay exactly when the store had none.
\<close>

theorem createOrder_frame:
  "accounts (fst (createOrder L E d req courseId accountId)) = accounts d
   \<and> courses (fst (createOrder L E d req courseId accountId)) = courses d
   \<and> paymentMethods (fst (createOrder L E d req courseId accountId)) =
       (case snd (createOrder L E d req courseId accountId) of
          Inl e \<Rightarrow> paymentMethods d
        | Inr r \<Rightarrow>
            (case find (\<lambda>p. pm_name p = VNPay) (paymentMethods d) of
               Some p \<Rightarrow> paymentMethods d
             | None \<Rightarrow> paymentMethods d @ [\<lparr>pm_id = newPaymentMethodId E, pm_name = VNPay\<rparr>]))
   \<and> (case snd (createOrder L E d req courseId accountId) of
          Inl e \<Rightarrow> orders (fst (createOrder L E d req courseId accountId)) = orders d
                 \<and> orderDetails (fst (createOrder L E d req courseId accountId)) = orderDetails d
        | Inr r \<Rightarrow> (\<exists>x. orders (fst (createOrder L E d req courseId accountId)) = orders d @ [x])
                 \<and> (\<exists>y. orderDetails (fst (createOrder L E d req courseId accountId))
                           = orderDetails d @ [y]))"
proof (cases "snd (createOrder L E d req courseId accountId)")
  case (Inl e)
  from createOrder_Inl_unchanged [OF Inl] Inl show ?thesis by simp
next
  case (Inr r)
  from createOrder_Inr_cases [OF Inr]
  obtain cid aid crs acc where h: "courseId = Some cid" "cid \<noteq> []" "accountId = Some aid"
    "aid \<noteq> []" "Course_findById d cid = Inr (Some crs)" "isActive crs"
    "Account_findById d aid = Inr (Some acc)"
    by blast
  show ?thesis
    unfolding h(1,3) createOrder_ok [OF h(2) h(4) h(5) h(6) h(7)]
    by (simp add: findOrCreateVNPay_frame findOrCreateVNPay_paymentMethods)
qed


lemma ex_ids_toObjectId:
  "toObjectId ''65f1c0de00000000000000a1'' = ''65f1c0de00000000000000a1''"
  "toObjectId ''65f1c0de00000000000000c1'' = ''65f1c0de00000000000000c1''"
  by (simp_all add: toObjectId_def hexLower_def)

lemma exCreated_run:
  "createOrder exLib exEnv (exDb True Pending) exReq
     (Some ''65f1c0de00000000000000c1'') (Some ''65f1c0de00000000000000a1'')
     = (exCreatedDb, Inr exCreatedResult)"
proof -
  have c: "Course_findById (exDb True Pending) ''65f1c0de00000000000000c1''
             = Inr (Some (exCourse True))"
    by (simp add: Course_findById_def ex_ids_cast exDb_def exCourse_def)
  have a: "Account_findById (exDb True Pending) ''65f1c0de00000000000000a1'' = Inr (Some exAccount)"
    by (simp add: Account_findById_def ex_ids_cast exDb_def exAccount_def)
  have act: "isActive (exCourse True)" by (simp add: exCourse_def)
  have ne: "''65f1c0de00000000000000c1'' \<noteq> []" "''65f1c0de00000000000000a1'' \<noteq> []" by simp_all
  show ?thesis
    unfolding createOrder_ok [OF ne c act a] ex_ids_toObjectId
    by (simp add: findOrCreateVNPay_def Let_def exDb_def exEnv_def exCourse_def exCreatedDb_def
          exCreatedResult_def)
qed

theorem createOrder_creates_pair_witness:
  "createOrder exLib exEnv (exDb True Pending) exReq
     (Some ''65f1c0de00000000000000c1'') (Some ''65f1c0de00000000000000a1'')
     = (exCreatedDb, Inr exCreatedResult)
   \<and> (\<exists>x y. orders exCreatedDb = orders (exDb True Pending) @ [x]
           \<and> orderDetails exCreatedDb = orderDetails (exDb True Pending) @ [y]
           \<and> status x = Pending \<and> totalAmount x = price (exCourse True) \<and> od_order y = o_id x
           \<and> o_account x = ''65f1c0de00000000000000a1''
           \<and> od_course y = ''65f1c0de00000000000000c1'' \<and> quantity y = 1
           \<and> od_price y = price (exCourse True) \<and> \<not> isFinishCourse y)"
proof -
  have c: "Course_findById (exDb True Pending) ''65f1c0de00000000000000c1''
             = Inr (Some (exCourse True))"
    by (simp add: Course_findById_def ex_ids_cast exDb_def exCourse_def)
  from createOrder_creates_pair [OF exCreated_run] c exCreated_run show ?thesis
    by (auto simp add: ex_ids_toObjectId)
qed



theorem createOrder_frame_witness:
  "accounts exCreatedDb = accounts (exDb True Pending)
   \<and> courses exCreatedDb = courses (exDb True Pending)
   \<and> paymentMethods exCreatedDb = [\<lparr>pm_id = ''65f1c0de00000000000000f1'', pm_name = VNPay\<rparr>]"
  using createOrder_frame [of exLib exEnv "exDb True Pending" exReq
          "Some ''65f1c0de00000000000000c1''" "Some ''65f1c0de00000000000000a1''",
          unfolded exCreated_run]
  by (simp add: exCreatedDb_def exDb_def)

lemma sortedParams_keys: "map fst (sortedParams ps) = sort (map fst ps)"
  by (simp add: sortedParams_def comp_def)

lemma map_of_graph: "map_of (map (\<lambda>k. (k, f k)) ks) k = (if k \<in> set ks then Some (f k) else None)"
  by (induction ks) simp_all

lemma sortedParams_map_of: "map_of (sortedParams ps) k = map_of ps k"
proof (cases "k \<in> set (map fst ps)")
  case True
  then obtain v where v: "map_of ps k = Some v"
    by (metis map_of_eq_None_iff not_Some_eq set_map)
  have "map_of (sortedParams ps) k
          = (if k \<in> set (sort (map fst ps))
             then Some (case map_of ps k of Some v \<Rightarrow> v | None \<Rightarrow> ''undefined'') else None)"
    unfolding sortedParams_def by (rule map_of_graph)
  with True v show ?thesis by simp
next
  case False
  then have "map_of ps k = None" by (simp add: map_of_eq_None_iff)
  moreover have "k \<notin> fst ` set (sortedParams ps)"
    using False by (simp add: sortedParams_def image_image)
  then have "map_of (sortedParams ps) k = None" by (simp add: map_of_eq_None_iff)
  ultimately show ?thesis by simp
qed

lemma sortedParams_set:
  assumes "distinct (map fst ps)"
  shows "set (sortedParams ps) = set ps"
proof -
  have d: "distinct (map fst (sortedParams ps))"
    using assms by (simp add: sortedParams_keys)
  show ?thesis
  proof (intro set_eqI iffI)
    fix kv assume "kv \<in> set (sortedParams ps)"
    then have "map_of (sortedParams ps) (fst kv) = Some (snd kv)"
      using d by (simp add: map_of_eq_Some_iff)
    then have "map_of ps (fst kv) = Some (snd kv)" by (simp add: sortedParams_map_of)
    then show "kv \<in> set ps" using assms by (simp add: map_of_eq_Some_iff)
  next
    fix kv assume "kv \<in> set ps"
    then have "map_of ps (fst kv) = Some (snd kv)"
      using assms by (simp add: map_of_eq_Some_iff)
    then have "map_of (sortedParams ps) (fst kv) = Some (snd kv)" by (simp add: sortedParams_map_of)
    then show "kv \<in> set (sortedParams ps)" using d by (simp add: map_of_eq_Some_iff)
  qed
qed

lemma paymentParams_keys:
  "map fst (paymentParams L E req amount orderId courseName) =
     [''vnp_Version'', ''vnp_Command'', ''vnp_TmnCode'', ''vnp_Amount'', ''vnp_CurrCode'',
      ''vnp_TxnRef'', ''vnp_OrderInfo'', ''vnp_OrderType'', ''vnp_Locale'', ''vnp_ReturnUrl'',
      ''vnp_IpAddr'', ''vnp_CreateDate'']"
  by (simp add: paymentParams_def)

lemma paymentParams_distinct:
  "distinct (map fst (paymentParams L E req amount orderId courseName))"
  unfolding paymentParams_keys by simp

lemma sort_vnp_keys:
  "sort [''vnp_Version'', ''vnp_Command'', ''vnp_TmnCode'', ''vnp_Amount'', ''vnp_CurrCode'',
      ''vnp_TxnRef'', ''vnp_OrderInfo'', ''vnp_OrderType'', ''vnp_Locale'', ''vnp_ReturnUrl'',
      ''vnp_IpAddr'', ''vnp_CreateDate''] =
     [''vnp_Amount'', ''vnp_Command'', ''vnp_CreateDate'', ''vnp_CurrCode'', ''vnp_IpAddr'',
      ''vnp_Locale'', ''vnp_OrderInfo'', ''vnp_OrderType'', ''vnp_ReturnUrl'', ''vnp_TmnCode'',
      ''vnp_TxnRef'', ''vnp_Version'']"
  by code_simp

lemma paymentParams_sorted_keys:
  "map fst (sortedParams (paymentParams L E req amount orderId courseName)) =
     [''vnp_Amount'', ''vnp_Command'', ''vnp_CreateDate'', ''vnp_CurrCode'', ''vnp_IpAddr'',
      ''vnp_Locale'', ''vnp_OrderInfo'', ''vnp_OrderType'', ''vnp_ReturnUrl'', ''vnp_TmnCode'',
      ''vnp_TxnRef'', ''vnp_Version'']"
  unfolding sortedParams_keys paymentParams_keys by (rule sort_vnp_keys)

lemma createOrder_url:
  assumes "createOrder L E d req courseId accountId = (d', Inr r)"
  shows "\<exists>cid crs. courseId = Some cid \<and> Course_findById d cid = Inr (Some crs) \<and> snd (r_data r) =
           vnpayUrl L (paymentParams L E req (totalAmount (last (orders d')))
                         (o_id (last (orders d'))) (c_name crs))"
proof -
  from assms have "snd (createOrder L E d req courseId accountId) = Inr r" by simp
  from createOrder_Inr_cases [OF this]
  obtain cid aid crs acc where h: "courseId = Some cid" "cid \<noteq> []" "accountId = Some aid"
    "aid \<noteq> []" "Course_findById d cid = Inr (Some crs)" "isActive crs" "Account_findById d aid = Inr (Some acc)"
    by blast
  from createOrder_ok [OF h(2) h(4) h(5) h(6) h(7), of L E req] assms h(1,3)
  have "snd (r_data r) =
           vnpayUrl L (paymentParams L E req (totalAmount (last (orders d')))
                         (o_id (last (orders d'))) (c_name crs))"
    by auto
  with h(1,5) show ?thesis by blast
qed

text \<open>
  Claim C5. The payment URL is the fixed gateway path, the query string, and the parameter
  \<open>vnp_SecureHash\<close> appended after it, whose value is the hex HMAC-SHA-512 of that same
  query string under the shared secret. The query string is the encoded \<open>key=value\<close>
  pairs joined by \<open>&\<close>, in ascending order of the keys; the sorted parameters are the
  parameters that were built, each once. The value of \<open>vnp_Amount\<close> is the amount times 100.
  The URL depends on the environment only through the clock. In a successful
  \<open>createOrder\<close> the URL returned is the one built for the total amount and the id of the
  order just stored and for the name of the course.
\<close>

theorem vnpayUrl_signed:
  "vnpayUrl L (paymentParams L E req amount orderId courseName) =
     ''https://sandbox.vnpayment.vn/paymentv2/vpcpay.html?''
       @ queryString L (sortedParams (paymentParams L E req amount orderId courseName))
       @ ''&vnp_SecureHash=''
       @ hmacSha512Hex L vnp_HashSecret
           (queryString L (sortedParams (paymentParams L E req amount orderId courseName)))
   \<and> queryString L (sortedParams (paymentParams L E req amount orderId courseName)) =
       joinAmp (map (\<lambda>(k, v). formUrlEncode L k @ ''='' @ formUrlEncode L v)
                  (sortedParams (paymentParams L E req amount orderId courseName)))
   \<and> map fst (sortedParams (paymentParams L E req amount orderId courseName)) =
       [''vnp_Amount'', ''vnp_Command'', ''vnp_CreateDate'', ''vnp_CurrCode'', ''vnp_IpAddr'',
        ''vnp_Locale'', ''vnp_OrderInfo'', ''vnp_OrderType'', ''vnp_ReturnUrl'', ''vnp_TmnCode'',
        ''vnp_TxnRef'', ''vnp_Version'']
   \<and> sorted (map fst (sortedParams (paymentParams L E req amount orderId courseName)))
   \<and> distinct (map fst (sortedParams (paymentParams L E req amount orderId courseName)))
   \<and> set (sortedParams (paymentParams L E req amount orderId courseName))
       = set (paymentParams L E req amount orderId courseName)
   \<and> map_of (sortedParams (paymentParams L E req amount orderId courseName)) ''vnp_Amount''
       = Some (numberToString L (amount * 100))
   \<and> (clock E' = clock E \<longrightarrow>
        vnpayUrl L (paymentParams L E' req amount orderId courseName)
          = vnpayUrl L (paymentParams L E req amount orderId courseName))
   \<and> (createOrder L E d req courseId accountId = (d', Inr r) \<longrightarrow>
        (\<exists>cid crs. courseId = Some cid \<and> Course_findById d cid = Inr (Some crs) \<and> snd (r_data r) =
           vnpayUrl L (paymentParams L E req (totalAmount (last (orders d')))
                         (o_id (last (orders d'))) (c_name crs))))"
proof (intro conjI impI)
  show "vnpayUrl L (paymentParams L E req amount orderId courseName) =
     ''https://sandbox.vnpayment.vn/paymentv2/vpcpay.html?''
       @ queryString L (sortedParams (paymentParams L E req amount orderId courseName))
       @ ''&vnp_SecureHash=''
       @ hmacSha512Hex L vnp_HashSecret
           (queryString L (sortedParams (paymentParams L E req amount orderId courseName)))"
    by (simp add: vnpayUrl_def Let_def)
  show "queryString L (sortedParams (paymentParams L E req amount orderId courseName)) =
       joinAmp (map (\<lambda>(k, v). formUrlEncode L k @ ''='' @ formUrlEncode L v)
                  (sortedParams (paymentParams L E req amount orderId courseName)))"
    by (simp add: queryString_def)
  show "map fst (sortedParams (paymentParams L E req amount orderId courseName)) =
       [''vnp_Amount'', ''vnp_Command'', ''vnp_CreateDate'', ''vnp_CurrCode'', ''vnp_IpAddr'',
        ''vnp_Locale'', ''vnp_OrderInfo'', ''vnp_OrderType'', ''vnp_ReturnUrl'', ''vnp_TmnCode'',
        ''vnp_TxnRef'', ''vnp_Version'']"
    by (rule paymentParams_sorted_keys)
  show "sorted (map fst (sortedParams (paymentParams L E req amount orderId courseName)))"
    by (simp add: sortedParams_keys)
  show "distinct (map fst (sortedParams (paymentParams L E req amount orderId courseName)))"
    using paymentParams_distinct [of L E req amount orderId courseName]
    by (simp add: sortedParams_keys)
  show "set (sortedParams (paymentParams L E req amount orderId courseName))
       = set (paymentParams L E req amount orderId courseName)"
    by (rule sortedParams_set [OF paymentParams_distinct])
  show "map_of (sortedParams (paymentParams L E req amount orderId courseName)) ''vnp_Amount''
       = Some (numberToString L (amount * 100))"
    unfolding sortedParams_map_of by (simp add: paymentParams_def)
next
  assume "clock E' = clock E"
  then have "paymentParams L E' req amount orderId courseName
               = paymentParams L E req amount orderId courseName"
    by (simp add: paymentParams_def)
  then show "vnpayUrl L (paymentParams L E' req amount orderId courseName)
          = vnpayUrl L (paymentParams L E req amount orderId courseName)" by simp
next
  assume "createOrder L E d req courseId accountId = (d', Inr r)"
  then show "\<exists>cid crs. courseId = Some cid \<and> Course_findById d cid = Inr (Some crs) \<and> snd (r_data r) =
           vnpayUrl L (paymentParams L E req (totalAmount (last (orders d')))
                         (o_id (last (orders d'))) (c_name crs))"
    by (rule createOrder_url)
qed


lemma showNat_digit: "n < 10 \<Longrightarrow> showNat n = [''0123456789'' ! n]"
  by (simp add: showNat.simps)

lemma showNat_more: "10 \<le> n \<Longrightarrow> showNat n = showNat (n div 10) @ [''0123456789'' ! (n mod 10)]"
  by (subst showNat.simps) simp

lemma ex_dateFormat: "dateFormat exClock ''yyyymmddHHMMss'' = ''20250101000000''"
  by (simp add: dateFormat_def exClock_def pad_def showNat_digit showNat_more)

lemma ex_amount: "numberToString exLib (100000 * 100) = ''10000000''"
  by (simp add: exLib_def showNat_digit showNat_more)

lemma ex_sortedParams:
  "sortedParams (paymentParams exLib exEnv exReq 100000 ''65f1c0de00000000000000d1'' ''Intro to Go'') =
     [(''vnp_Amount'', ''10000000''), (''vnp_Command'', ''pay''),
      (''vnp_CreateDate'', ''20250101000000''), (''vnp_CurrCode'', ''VND''),
      (''vnp_IpAddr'', ''127.0.0.1''), (''vnp_Locale'', ''vn''),
      (''vnp_OrderInfo'', ''Payment for course: Intro to Go''), (''vnp_OrderType'', ''250000''),
      (''vnp_ReturnUrl'', ''http://localhost:3000?orderId=65f1c0de00000000000000d1''), (''vnp_TmnCode'', ''9TKDVWYK''),
      (''vnp_TxnRef'', ''65f1c0de00000000000000d1''), (''vnp_Version'', ''2.1.0'')]"
proof -
  have cd: "dateFormat (clock exEnv) ''yyyymmddHHMMss'' = ''20250101000000''"
    using ex_dateFormat by (simp add: exEnv_def)
  have ps: "paymentParams exLib exEnv exReq 100000 ''65f1c0de00000000000000d1'' ''Intro to Go'' =
     [(''vnp_Version'', ''2.1.0''), (''vnp_Command'', ''pay''), (''vnp_TmnCode'', ''9TKDVWYK''),
      (''vnp_Amount'', ''10000000''), (''vnp_CurrCode'', ''VND''), (''vnp_TxnRef'', ''65f1c0de00000000000000d1''),
      (''vnp_OrderInfo'', ''Payment for course: Intro to Go''), (''vnp_OrderType'', ''250000''),
      (''vnp_Locale'', ''vn''), (''vnp_ReturnUrl'', ''http://localhost:3000?orderId=65f1c0de00000000000000d1''),
      (''vnp_IpAddr'', ''127.0.0.1''), (''vnp_CreateDate'', ''20250101000000'')]"
    unfolding paymentParams_def cd
    using ex_amount by (simp add: vnp_TmnCode_def exReq_def falsy_def)
  show ?thesis
    unfolding ps sortedParams_def list.map fst_conv sort_vnp_keys by simp
qed

lemma ex_queryString:
  "queryString exLib
     [(''vnp_Amount'', ''10000000''), (''vnp_Command'', ''pay''),
      (''vnp_CreateDate'', ''20250101000000''), (''vnp_CurrCode'', ''VND''),
      (''vnp_IpAddr'', ''127.0.0.1''), (''vnp_Locale'', ''vn''),
      (''vnp_OrderInfo'', ''Payment for course: Intro to Go''), (''vnp_OrderType'', ''250000''),
      (''vnp_ReturnUrl'', ''http://localhost:3000?orderId=65f1c0de00000000000000d1''), (''vnp_TmnCode'', ''9TKDVWYK''),
      (''vnp_TxnRef'', ''65f1c0de00000000000000d1''), (''vnp_Version'', ''2.1.0'')]
   = ''vnp_Amount=10000000&vnp_Command=pay&vnp_CreateDate=20250101000000&vnp_CurrCode=VND&vnp_IpAddr=127.0.0.1&vnp_Locale=vn&vnp_OrderInfo=Payment+for+course%3A+Intro+to+Go&vnp_OrderType=250000&vnp_ReturnUrl=http%3A%2F%2Flocalhost%3A3000%3ForderId%3D65f1c0de00000000000000d1&vnp_TmnCode=9TKDVWYK&vnp_TxnRef=65f1c0de00000000000000d1&vnp_Version=2.1.0''"
  by (simp add: queryString_def exLib_def exEncodeChar_def)

theorem vnpayUrl_signed_witness:
  "createOrder exLib exEnv (exDb True Pending) exReq (Some ''65f1c0de00000000000000c1'') (Some ''65f1c0de00000000000000a1'')
     = (exCreatedDb, Inr exCreatedResult)
   \<and> totalAmount (last (orders exCreatedDb)) = 100000
   \<and> snd (r_data exCreatedResult)
       = ''https://sandbox.vnpayment.vn/paymentv2/vpcpay.html?''
          @ ''vnp_Amount=10000000&vnp_Command=pay&vnp_CreateDate=20250101000000&vnp_CurrCode=VND&vnp_IpAddr=127.0.0.1&vnp_Locale=vn&vnp_OrderInfo=Payment+for+course%3A+Intro+to+Go&vnp_OrderType=250000&vnp_ReturnUrl=http%3A%2F%2Flocalhost%3A3000%3ForderId%3D65f1c0de00000000000000d1&vnp_TmnCode=9TKDVWYK&vnp_TxnRef=65f1c0de00000000000000d1&vnp_Version=2.1.0''
          @ ''&vnp_SecureHash=''
          @ hmacSha512Hex exLib vnp_HashSecret
              ''vnp_Amount=10000000&vnp_Command=pay&vnp_CreateDate=20250101000000&vnp_CurrCode=VND&vnp_IpAddr=127.0.0.1&vnp_Locale=vn&vnp_OrderInfo=Payment+for+course%3A+Intro+to+Go&vnp_OrderType=250000&vnp_ReturnUrl=http%3A%2F%2Flocalhost%3A3000%3ForderId%3D65f1c0de00000000000000d1&vnp_TmnCode=9TKDVWYK&vnp_TxnRef=65f1c0de00000000000000d1&vnp_Version=2.1.0''"
proof -
  have url: "vnpayUrl exLib (paymentParams exLib exEnv exReq 100000 ''65f1c0de00000000000000d1'' ''Intro to Go'') =
     ''https://sandbox.vnpayment.vn/paymentv2/vpcpay.html?''
       @ queryString exLib (sortedParams (paymentParams exLib exEnv exReq 100000 ''65f1c0de00000000000000d1'' ''Intro to Go''))
       @ ''&vnp_SecureHash=''
       @ hmacSha512Hex exLib vnp_HashSecret
           (queryString exLib (sortedParams (paymentParams exLib exEnv exReq 100000 ''65f1c0de00000000000000d1'' ''Intro to Go'')))"
    using vnpayUrl_signed [of exLib exEnv exReq 100000 "''65f1c0de00000000000000d1''" "''Intro to Go''" exEnv
          "exDb True Pending" "Some ''65f1c0de00000000000000c1''" "Some ''65f1c0de00000000000000a1''" exCreatedDb exCreatedResult]
    by blast
  have c: "Course_findById (exDb True Pending) ''65f1c0de00000000000000c1''
             = Inr (Some (exCourse True))"
    by (simp add: Course_findById_def ex_ids_cast exDb_def exCourse_def)
  have "\<exists>cid crs. Some ''65f1c0de00000000000000c1'' = Some cid \<and> Course_findById (exDb True Pending) cid = Inr (Some crs)
          \<and> snd (r_data exCreatedResult) =
              vnpayUrl exLib (paymentParams exLib exEnv exReq (totalAmount (last (orders exCreatedDb)))
                                (o_id (last (orders exCreatedDb))) (c_name crs))"
    using vnpayUrl_signed [of exLib exEnv exReq 100000 "''65f1c0de00000000000000d1''" "''Intro to Go''" exEnv
          "exDb True Pending" "Some ''65f1c0de00000000000000c1''" "Some ''65f1c0de00000000000000a1''" exCreatedDb exCreatedResult]
          exCreated_run
    by blast
  with c have res: "snd (r_data exCreatedResult)
               = vnpayUrl exLib (paymentParams exLib exEnv exReq 100000 ''65f1c0de00000000000000d1'' ''Intro to Go'')"
    by (auto simp add: exCreatedDb_def exCourse_def)
  have amt: "totalAmount (last (orders exCreatedDb)) = 100000"
    by (simp add: exCreatedDb_def)
  show ?thesis
    unfolding res url ex_sortedParams ex_queryString
    using exCreated_run amt by simp
qed

section \<open>Properties of the dashboard services\<close>

lemma addDoc_map_of:
  "map_of (addDoc k x gs) k' =
     (if k' = k then Some ((case map_of gs k of None \<Rightarrow> [] | Some xs \<Rightarrow> xs) @ [x])
      else map_of gs k')"
  by (induction k x gs rule: addDoc.induct) auto

lemma addDoc_keys: "set (map fst (addDoc k x gs)) = insert k (set (map fst gs))"
  by (induction k x gs rule: addDoc.induct) (simp_all add: insert_commute)

lemma addDoc_distinct: "distinct (map fst gs) \<Longrightarrow> distinct (map fst (addDoc k x gs))"
proof (induction k x gs rule: addDoc.induct)
  case (1 k x)
  then show ?case by simp
next
  case (2 k x k' xs gs)
  show ?case
  proof (cases "k' = k")
    case True
    with 2 show ?thesis by simp
  next
    case False
    have "k' \<notin> set (map fst (addDoc k x gs))"
      unfolding addDoc_keys using 2(2) False by simp
    with 2 False show ?thesis by simp
  qed
qed

lemma foldl_addDoc_map_of:
  "map_of (foldl (\<lambda>gs x. addDoc (key x) x gs) gs docs) k =
     (if filter (\<lambda>x. key x = k) docs = [] then map_of gs k
      else Some ((case map_of gs k of None \<Rightarrow> [] | Some ys \<Rightarrow> ys) @ filter (\<lambda>x. key x = k) docs))"
proof (induction docs arbitrary: gs)
  case Nil
  then show ?case by simp
next
  case (Cons y ys)
  show ?case
  proof (cases "key y = k")
    case True
    then show ?thesis by (simp add: Cons.IH addDoc_map_of)
  next
    case False
    then show ?thesis by (simp add: Cons.IH addDoc_map_of)
  qed
qed

lemma foldl_addDoc_distinct:
  "distinct (map fst gs) \<Longrightarrow> distinct (map fst (foldl (\<lambda>gs x. addDoc (key x) x gs) gs docs))"
  by (induction docs arbitrary: gs) (simp_all add: addDoc_distinct)

lemma groupDocs_map_of:
  "map_of (groupDocs key docs) k =
     (if filter (\<lambda>x. key x = k) docs = [] then None else Some (filter (\<lambda>x. key x = k) docs))"
  by (simp add: groupDocs_def foldl_addDoc_map_of)

lemma groupDocs_distinct: "distinct (map fst (groupDocs key docs))"
  by (simp add: groupDocs_def foldl_addDoc_distinct)

lemma foldl_addDoc_keys:
  "set (map fst (foldl (\<lambda>gs x. addDoc (key x) x gs) gs docs)) = set (map fst gs) \<union> key ` set docs"
proof (induction docs arbitrary: gs)
  case Nil
  then show ?case by simp
next
  case (Cons y ys)
  have "set (map fst (foldl (\<lambda>gs x. addDoc (key x) x gs) (addDoc (key y) y gs) ys))
          = set (map fst (addDoc (key y) y gs)) \<union> key ` set ys"
    by (rule Cons.IH)
  then show ?case unfolding addDoc_keys by simp
qed

lemma groupDocs_keys: "set (map fst (groupDocs key docs)) = key ` set docs"
  using foldl_addDoc_keys [of key "[]" docs] by (simp add: groupDocs_def)


lemma nat_mod12: "nat (x mod 12) \<le> 11" for x :: int
proof -
  have "x mod 12 < 12" by simp
  then show ?thesis by linarith
qed

lemma utcMonth_shape: "\<exists>mp. utcMonth t = nat ((mp + 2) mod 12) + 1"
  unfolding utcMonth_def Let_def by (rule exI) (rule refl)

lemma utcMonth_range: "1 \<le> utcMonth t \<and> utcMonth t \<le> 12"
proof -
  from utcMonth_shape obtain mp where "utcMonth t = nat ((mp + 2) mod 12) + 1" ..
  with nat_mod12 [of "mp + 2"] show ?thesis by simp
qed


lemma distinct_fst_sort_key:
  "distinct (map fst xs) \<Longrightarrow> distinct (map fst (sort_key fst xs))"
  by (simp add: distinct_map)

lemma set_fst_sort_key: "set (map fst (sort_key fst xs)) = set (map fst xs)"
  by simp

lemma map_of_sort_key_fst:
  assumes "distinct (map fst xs)"
  shows "map_of (sort_key fst xs) = map_of xs"
proof -
  have "distinct (map fst (sort_key fst xs))"
    using assms by (simp add: distinct_map)
  moreover have "set (sort_key fst xs) = set xs" by simp
  ultimately show ?thesis using assms map_of_inject_set by blast
qed

lemma map_of_map_snd:
  "map_of (map (\<lambda>(k, v). (k, f v)) xs) k = map_option f (map_of xs k)"
  by (induction xs) (simp_all add: split_beta)

lemma map_fst_map_snd: "map fst (map (\<lambda>(k, v). (k, f v)) xs) = map fst xs"
  by (induction xs) (simp_all add: split_beta)

lemma foldl_update_nth:
  assumes "distinct (map fst rd)" and "\<forall>i \<in> set (map fst rd). 1 \<le> i" and "j < length arr"
  shows "foldl (\<lambda>arr (i, v). arr[i - 1 := g v]) arr rd ! j =
           (case map_of rd (Suc j) of Some v \<Rightarrow> g v | None \<Rightarrow> arr ! j)"
  using assms
proof (induction rd arbitrary: arr)
  case Nil
  then show ?case by simp
next
  case (Cons p rd)
  obtain i v where p: "p = (i, v)" by (cases p)
  from Cons.prems p have d: "distinct (map fst rd)" and pos: "\<forall>i \<in> set (map fst rd). 1 \<le> i"
    and i1: "1 \<le> i" and fresh: "i \<notin> set (map fst rd)" by simp_all
  have len: "j < length (arr[i - 1 := g v])" using Cons.prems(3) by simp
  have ih: "foldl (\<lambda>arr (i, v). arr[i - 1 := g v]) (arr[i - 1 := g v]) rd ! j =
           (case map_of rd (Suc j) of Some v \<Rightarrow> g v | None \<Rightarrow> arr[i - 1 := g v] ! j)"
    by (rule Cons.IH [OF d pos len])
  have step: "foldl (\<lambda>arr (i, v). arr[i - 1 := g v]) arr (p # rd)
                = foldl (\<lambda>arr (i, v). arr[i - 1 := g v]) (arr[i - 1 := g v]) rd"
    by (simp add: p)
  show ?case
  proof (cases "i = Suc j")
    case True
    with fresh have none: "map_of rd (Suc j) = None" by (simp add: map_of_eq_None_iff)
    have "arr[i - 1 := g v] ! j = g v" using True Cons.prems(3) by simp
    with none True show ?thesis unfolding step ih by (simp add: p)
  next
    case False
    with i1 have "i - 1 \<noteq> j" by arith
    then have same: "arr[i - 1 := g v] ! j = arr ! j" by simp
    from False show ?thesis unfolding step ih same by (simp add: p)
  qed
qed

lemma floor_half: "\<lfloor>1 / 2 :: rat\<rfloor> = 0"
  by (rule floor_unique) simp_all

lemma parseFloat_toFixed2: "parseFloat (Fixed2 (toFixed2 x)) = roundTo2 x"
proof (cases "x = 0")
  case True
  then show ?thesis by (simp add: toFixed2_def roundTo2_def floor_half)
next
  case False
  then show ?thesis by (simp add: toFixed2_def roundTo2_def sgn_if)
qed

lemma roundTo2_0: "roundTo2 0 = 0"
  by (simp add: roundTo2_def)

lemma filter_month_matchCompleted:
  "filter (\<lambda>x. utcMonth (createdAt x) = m) (matchCompleted (newDate tz year) (newDate tz (year + 1)) ords)
     = completedInMonth tz year m ords"
  unfolding matchCompleted_def completedInMonth_def filter_filter
  by (rule filter_cong) auto

text \<open>The sorted, summed groups of both revenue pipelines, as a map from month to sum.\<close>

lemma revenueData_map_of:
  "map_of (sort_key fst (map (\<lambda>(k, xs). (k, sum_list (map f xs)))
             (groupDocs (\<lambda>x. utcMonth (createdAt x))
                (matchCompleted (newDate tz year) (newDate tz (year + 1)) ords)))) m
   = (if completedInMonth tz year m ords = [] then None
      else Some (sum_list (map f (completedInMonth tz year m ords))))"
proof -
  let ?gs = "groupDocs (\<lambda>x. utcMonth (createdAt x))
               (matchCompleted (newDate tz year) (newDate tz (year + 1)) ords)"
  let ?rd = "map (\<lambda>(k, xs). (k, sum_list (map f xs))) ?gs"
  have "distinct (map fst ?rd)"
    unfolding map_fst_map_snd by (rule groupDocs_distinct)
  then have "map_of (sort_key fst ?rd) m = map_of ?rd m"
    by (simp add: map_of_sort_key_fst)
  also have "\<dots> = map_option (\<lambda>xs. sum_list (map f xs)) (map_of ?gs m)"
    by (rule map_of_map_snd)
  also have "\<dots> = (if completedInMonth tz year m ords = [] then None
      else Some (sum_list (map f (completedInMonth tz year m ords))))"
    unfolding groupDocs_map_of filter_month_matchCompleted by simp
  finally show ?thesis .
qed

lemma revenueData_keys:
  "distinct (map fst (sort_key fst (map (\<lambda>(k, xs). (k, sum_list (map f xs)))
             (groupDocs (\<lambda>x. utcMonth (createdAt x)) docs))))
   \<and> (\<forall>i \<in> set (map fst (sort_key fst (map (\<lambda>(k, xs). (k, sum_list (map f xs)))
             (groupDocs (\<lambda>x. utcMonth (createdAt x)) docs)))). 1 \<le> i)"
proof -
  let ?gs = "groupDocs (\<lambda>x. utcMonth (createdAt x)) docs"
  let ?rd = "map (\<lambda>(k, xs). (k, sum_list (map f xs))) ?gs"
  have d: "distinct (map fst ?rd)"
    unfolding map_fst_map_snd by (rule groupDocs_distinct)
  then have d': "distinct (map fst (sort_key fst ?rd))" by (rule distinct_fst_sort_key)
  have "set (map fst (sort_key fst ?rd)) = set (map fst ?rd)" by (rule set_fst_sort_key)
  also have "\<dots> = (\<lambda>x. utcMonth (createdAt x)) ` set docs"
    unfolding map_fst_map_snd by (rule groupDocs_keys)
  finally have "\<forall>i \<in> set (map fst (sort_key fst ?rd)). 1 \<le> i"
    using utcMonth_range by auto
  with d' show ?thesis by blast
qed

lemma foldl_update_length:
  "length (foldl (\<lambda>arr (i, v). arr[i - 1 := g v]) arr rd) = length arr"
  by (induction rd arbitrary: arr) (simp_all add: split_beta)

lemma foldl_update_replicate_nth:
  assumes "distinct (map fst rd)" and "\<forall>i \<in> set (map fst rd). 1 \<le> i" and "j < n"
  shows "foldl (\<lambda>arr (i, v). arr[i - 1 := g v]) (replicate n a) rd ! j =
           (case map_of rd (Suc j) of Some v \<Rightarrow> g v | None \<Rightarrow> a)"
proof -
  have "j < length (replicate n a)" using assms(3) by simp
  from foldl_update_nth [OF assms(1,2) this, of g] assms(3)
  show ?thesis by (simp split: option.split)
qed

lemma parseFloat_zero: "parseFloat (Num 0) = 0"
  by simp

lemma find_month_map:
  "find (\<lambda>r. month r = m) (map (\<lambda>(k, t). \<lparr>month = k, revenue = t\<rparr>) xs)
     = map_option (\<lambda>t. \<lparr>month = m, revenue = t\<rparr>) (map_of xs m)"
  by (induction xs) (auto simp add: split_beta)

lemma getMonthlyRevenue_eq:
  "getMonthlyRevenue tz year ords =
     map (\<lambda>m. \<lparr>month = m,
               revenue = roundTo2 (sum_list (map totalAmount (completedInMonth tz year m ords))
                                    * (15 / 100))\<rparr>) [1..<13]"
proof -
  let ?rd = "sort_key fst
              (map (\<lambda>(k, xs). (k, sum_list (map totalAmount xs)))
                 (groupDocs (\<lambda>x. utcMonth (createdAt x))
                    (matchCompleted (newDate tz year) (newDate tz (year + 1)) ords)))"
  let ?g = "\<lambda>v. Fixed2 (toFixed2 (v * (15 / 100)))"
  define arr where "arr = foldl (\<lambda>arr (i, v). arr[i - 1 := ?g v]) (replicate 12 (Num 0)) ?rd"
  have len: "length arr = 12" unfolding arr_def foldl_update_length by simp
  have keys: "distinct (map fst ?rd)" "\<forall>i \<in> set (map fst ?rd). 1 \<le> i"
    using revenueData_keys [of totalAmount "matchCompleted (newDate tz year) (newDate tz (year + 1)) ords"]
    by blast+
  have nth: "arr ! j = (case map_of ?rd (Suc j) of Some v \<Rightarrow> ?g v | None \<Rightarrow> Num 0)"
    if "j < 12" for j
    unfolding arr_def by (rule foldl_update_replicate_nth [OF keys that])
  have cell: "parseFloat (arr ! j)
                = roundTo2 (sum_list (map totalAmount (completedInMonth tz year (Suc j) ords))
                             * (15 / 100))"
    if "j < 12" for j
    unfolding nth [OF that] revenueData_map_of
    by (simp add: parseFloat_toFixed2 roundTo2_0 parseFloat_zero del: parseFloat.simps)
  have def: "getMonthlyRevenue tz year ords =
     map (\<lambda>(rev, index). \<lparr>month = index + 1, revenue = parseFloat rev\<rparr>) (zip arr [0..<length arr])"
    by (simp add: getMonthlyRevenue_def Let_def arr_def)
  show ?thesis
  proof (rule nth_equalityI)
    show "length (getMonthlyRevenue tz year ords) =
          length (map (\<lambda>m. \<lparr>month = m,
               revenue = roundTo2 (sum_list (map totalAmount (completedInMonth tz year m ords))
                                    * (15 / 100))\<rparr>) [1..<13])"
      unfolding def by (simp add: len)
  next
    fix j assume "j < length (getMonthlyRevenue tz year ords)"
    then have j: "j < 12" unfolding def by (simp add: len)
    have "getMonthlyRevenue tz year ords ! j = \<lparr>month = j + 1, revenue = parseFloat (arr ! j)\<rparr>"
      unfolding def using j by (simp add: len)
    also have "\<dots> = \<lparr>month = Suc j,
               revenue = roundTo2 (sum_list (map totalAmount (completedInMonth tz year (Suc j) ords))
                                    * (15 / 100))\<rparr>"
      using cell [OF j] by simp
    also have "\<dots> = map (\<lambda>m. \<lparr>month = m,
               revenue = roundTo2 (sum_list (map totalAmount (completedInMonth tz year m ords))
                                    * (15 / 100))\<rparr>) [1..<13] ! j"
      using j by (simp add: nth_map_upt)
    finally show "getMonthlyRevenue tz year ords ! j =
          map (\<lambda>m. \<lparr>month = m,
               revenue = roundTo2 (sum_list (map totalAmount (completedInMonth tz year m ords))
                                    * (15 / 100))\<rparr>) [1..<13] ! j" .
  qed
qed

lemma getRevenueByYear_eq:
  "getRevenueByYear tz year ords =
     map (\<lambda>m. \<lparr>month = m,
               revenue = sum_list (map (\<lambda>x. totalAmount x * (15 / 100))
                                     (completedInMonth tz year m ords))\<rparr>) [1..<13]"
proof -
  let ?rd = "sort_key fst
              (map (\<lambda>(k, xs). (k, sum_list (map (\<lambda>x. totalAmount x * (15 / 100)) xs)))
                 (groupDocs (\<lambda>x. utcMonth (createdAt x))
                    (matchCompleted (newDate tz year) (newDate tz (year + 1)) ords)))"
  have entry: "(case find (\<lambda>r. month r = m) (map (\<lambda>(k, t). \<lparr>month = k, revenue = t\<rparr>) ?rd) of
                 Some monthData \<Rightarrow> revenue monthData | None \<Rightarrow> 0)
               = sum_list (map (\<lambda>x. totalAmount x * (15 / 100)) (completedInMonth tz year m ords))"
    for m
    unfolding find_month_map revenueData_map_of by simp
  have "getRevenueByYear tz year ords =
          map (\<lambda>i. \<lparr>month = Suc i,
                    revenue = sum_list (map (\<lambda>x. totalAmount x * (15 / 100))
                                          (completedInMonth tz year (Suc i) ords))\<rparr>) [0..<12]"
    unfolding getRevenueByYear_def Let_def entry by simp
  also have "\<dots> = map (\<lambda>m. \<lparr>month = m,
               revenue = sum_list (map (\<lambda>x. totalAmount x * (15 / 100))
                                     (completedInMonth tz year m ords))\<rparr>) (map Suc [0..<12])"
    by (simp add: comp_def)
  also have "map Suc [0..<12] = [1..<13]"
    unfolding map_Suc_upt by simp
  finally show ?thesis .
qed

lemma ex_completedInMonth:
  "map (\<lambda>m. map o_id (completedInMonth 0 2025 m exRevenueOrders)) [1..<13]
     = [[''65f1c0de00000000000000e1'', ''65f1c0de00000000000000e2''], [], [], [], [], [], [], [], [], [], [], []]"
  by code_simp

lemma ex_sum: "sum_list (map totalAmount (completedInMonth 0 2025 1 exRevenueOrders)) = 10004999 / 100"
  by code_simp

lemma ex_round: "roundTo2 (15 / 100 * (10004999 / 100)) = 30015 / 2"
  by code_simp

lemma ex_monthly: "getMonthlyRevenue 0 2025 exRevenueOrders ! 0 = \<lparr>month = 1, revenue = 30015 / 2\<rparr>"
  by code_simp

lemma ex_byYear: "getRevenueByYear 0 2025 exRevenueOrders ! 0 = \<lparr>month = 1, revenue = 30014997 / 2000\<rparr>"
  by code_simp

text \<open>
  What the two revenue functions return on a server whose local time is UTC. For every
  year \<open>getMonthlyRevenue\<close> returns exactly the 12 entries for months 1 to 12 in ascending
  order, the entry for month \<open>m\<close> being 0.15 times the sum of \<open>totalAmount\<close> over the orders
  that count for month \<open>m\<close> of the year, rounded to two decimal places. \<open>getRevenueByYear\<close>
  returns the same 12 months with 0.15 times the same sum, not rounded. In both, a month
  with no such order has revenue 0.
\<close>

theorem monthlyRevenue_by_month:
  "getMonthlyRevenue 0 year ords =
     map (\<lambda>m. \<lparr>month = m,
               revenue = roundTo2 (15 / 100 * sum_list (map totalAmount (completedInMonth 0 year m ords)))\<rparr>)
         [1..<13]
   \<and> getRevenueByYear 0 year ords =
     map (\<lambda>m. \<lparr>month = m,
               revenue = 15 / 100 * sum_list (map totalAmount (completedInMonth 0 year m ords))\<rparr>)
         [1..<13]
   \<and> (\<forall>m \<in> {1..12}. completedInMonth 0 year m ords = [] \<longrightarrow>
          getMonthlyRevenue 0 year ords ! (m - 1) = \<lparr>month = m, revenue = 0\<rparr>
        \<and> getRevenueByYear 0 year ords ! (m - 1) = \<lparr>month = m, revenue = 0\<rparr>)"
proof -
  have a: "getMonthlyRevenue 0 year ords =
     map (\<lambda>m. \<lparr>month = m,
               revenue = roundTo2 (15 / 100 * sum_list (map totalAmount (completedInMonth 0 year m ords)))\<rparr>)
         [1..<13]"
    unfolding getMonthlyRevenue_eq by (simp add: mult.commute)
  have "sum_list (map (\<lambda>x. totalAmount x * (15 / 100)) xs) = 15 / 100 * sum_list (map totalAmount xs)"
    for xs :: "order list"
    by (induction xs) (simp_all add: algebra_simps)
  then have b: "getRevenueByYear 0 year ords =
     map (\<lambda>m. \<lparr>month = m,
               revenue = 15 / 100 * sum_list (map totalAmount (completedInMonth 0 year m ords))\<rparr>)
         [1..<13]"
    unfolding getRevenueByYear_eq by simp
  have c: "getMonthlyRevenue 0 year ords ! (m - 1) = \<lparr>month = m, revenue = 0\<rparr>
        \<and> getRevenueByYear 0 year ords ! (m - 1) = \<lparr>month = m, revenue = 0\<rparr>"
    if "m \<in> {1..12}" "completedInMonth 0 year m ords = []" for m
  proof -
    from that(1) have i: "m - 1 < 12" "1 + (m - 1) = m" by auto
    have n: "[1..<13] ! (m - 1) = m" using i by (simp add: nth_upt del: upt_Suc)
    have l: "m - 1 < length [1..<13]" using i by simp
    show ?thesis
      unfolding a b nth_map [OF l] n by (simp add: that(2) roundTo2_0)
  qed
  from a b c show ?thesis by blast
qed

theorem monthlyRevenue_by_month_witness:
  "completedInMonth 0 2025 2 exRevenueOrders = []
   \<and> getMonthlyRevenue 0 2025 exRevenueOrders ! 1 = \<lparr>month = 2, revenue = 0\<rparr>
   \<and> getRevenueByYear 0 2025 exRevenueOrders ! 1 = \<lparr>month = 2, revenue = 0\<rparr>
   \<and> getMonthlyRevenue 0 2025 exRevenueOrders ! 0 = \<lparr>month = 1, revenue = 30015 / 2\<rparr>"
proof -
  have e: "completedInMonth 0 2025 2 exRevenueOrders = []" by code_simp
  have m: "(2::nat) \<in> {1..12}" by simp
  from monthlyRevenue_by_month [of 2025 exRevenueOrders] e m
  have "getMonthlyRevenue 0 2025 exRevenueOrders ! (2 - 1) = \<lparr>month = 2, revenue = 0\<rparr>
      \<and> getRevenueByYear 0 2025 exRevenueOrders ! (2 - 1) = \<lparr>month = 2, revenue = 0\<rparr>"
    by blast
  with e ex_monthly show ?thesis by simp
qed

text \<open>
  Claim C4. Each entry is to be 0.15 times the sum over the completed orders created in
  that month of the year, rounded to two decimal places. Two inputs show the code doing
  otherwise. \<open>getRevenueByYear\<close> does not round, as \<open>getMonthlyRevenue\<close> does: with the
  orders of the example, January 2025 is reported as 15007.4985, while the sum times 0.15
  rounded to two decimal places is 15007.50. And on a server seven hours ahead of UTC an
  order created at 01:30 local time on 1 January 2025, which is 18:30 UTC on 31 December
  2024, passes the filter for 2025 (whose bounds are local midnights) and is grouped under
  its UTC month: both functions report it in December 2025, a month in which no order
  was created.
\<close>

theorem monthlyRevenue_divergence:
  "getRevenueByYear 0 2025 exRevenueOrders ! 0 = \<lparr>month = 1, revenue = 30014997 / 2000\<rparr>
   \<and> roundTo2 (15 / 100 * sum_list (map totalAmount (completedInMonth 0 2025 1 exRevenueOrders)))
       = 30015 / 2
   \<and> map createdAt exNewYearOrders = [1735669800000]
   \<and> utcMonth (1735669800000 + 25200000) = 1
   \<and> 1735669800000 < newDate 0 2025
   \<and> getMonthlyRevenue 25200000 2025 exNewYearOrders ! 11 = \<lparr>month = 12, revenue = 15000\<rparr>
   \<and> getRevenueByYear 25200000 2025 exNewYearOrders ! 11 = \<lparr>month = 12, revenue = 15000\<rparr>"
proof -
  have a: "getRevenueByYear 0 2025 exRevenueOrders ! 0 = \<lparr>month = 1, revenue = 30014997 / 2000\<rparr>"
    by (rule ex_byYear)
  have b: "roundTo2 (15 / 100 * sum_list (map totalAmount (completedInMonth 0 2025 1 exRevenueOrders)))
       = 30015 / 2"
    unfolding ex_sum by (rule ex_round)
  have c: "map createdAt exNewYearOrders = [1735669800000]"
    by (simp add: exNewYearOrders_def)
  have d: "utcMonth (1735669800000 + 25200000) = 1" by code_simp
  have e: "1735669800000 < newDate 0 2025" by code_simp
  have f: "getMonthlyRevenue 25200000 2025 exNewYearOrders ! 11 = \<lparr>month = 12, revenue = 15000\<rparr>"
    by code_simp
  have g: "getRevenueByYear 25200000 2025 exNewYearOrders ! 11 = \<lparr>month = 12, revenue = 15000\<rparr>"
    by code_simp
  from a b c d e f g show ?thesis by (intro conjI)
qed

lemma lookupUnwind_Nil: "lookupUnwind l f coll [] = []"
  by (simp add: lookupUnwind_def)

lemma groupDocs_Nil: "groupDocs key [] = []"
  by (simp add: groupDocs_def)

text \<open>
  Claim C8. When no order detail has \<open>isFinishCourse\<close> set, both top-performer queries
  return \<open>null\<close> (here \<open>None\<close>); they have no error outcome.
\<close>

theorem topPerformers_none:
  assumes "\<forall>x \<in> set (orderDetails d). \<not> isFinishCourse x"
  shows "getTopAccountByCompletedCourses d = None \<and> getTopTutor d = None"
proof -
  from assms have f: "filter isFinishCourse (orderDetails d) = []"
    by (simp add: filter_empty_conv)
  have "getTopAccountByCompletedCourses d = None"
    by (simp add: getTopAccountByCompletedCourses_def f lookupUnwind_Nil groupDocs_Nil
          sortByCountDesc_def)
  moreover have "getTopTutor d = None"
    by (simp add: getTopTutor_def f lookupUnwind_Nil groupDocs_Nil sortByCountDesc_def)
  ultimately show ?thesis by simp
qed

theorem topPerformers_none_witness:
  "getTopAccountByCompletedCourses exCreatedDb = None \<and> getTopTutor exCreatedDb = None"
  using topPerformers_none [of exCreatedDb] by (simp add: exCreatedDb_def)

section \<open>Properties of the route GET /revenue/:year\<close>

lemma ex_parse: "map parseInt [''2024'', ''2024abc'', ''abc'', ''1999'', ''2026'', '' 2024'', ''0x7E8'']
   = [Some 2024, Some 2024, None, Some 1999, Some 2026, Some 2024, Some 2024]"
  by code_simp

lemma isDigit_not_space: "isDigit c \<Longrightarrow> \<not> isWhiteSpace c"
  by (auto simp add: isDigit_def isWhiteSpace_def)

lemma isDigit_value: "isDigit c \<Longrightarrow> digitValue c = of_char c - 48"
  by (auto simp add: isDigit_def digitValue_def Let_def)

lemma isDigit_below_10: "isDigit c \<Longrightarrow> digitValue c < 10"
  by (auto simp add: isDigit_def digitValue_def Let_def)

lemma isDigit_not_sign: "isDigit c \<Longrightarrow> c \<noteq> CHR ''-'' \<and> c \<noteq> CHR ''+'' \<and> c \<noteq> CHR ''x'' \<and> c \<noteq> CHR ''X''"
  by (auto simp add: isDigit_def)

lemma foldl_digits:
  "list_all isDigit s \<Longrightarrow>
   foldl (\<lambda>acc c. acc * 10 + digitValue c) a s = foldl (\<lambda>acc c. acc * 10 + (of_char c - 48)) a s"
  by (induction s arbitrary: a) (simp_all add: isDigit_value)

lemma takeWhile_digits:
  "list_all isDigit s \<Longrightarrow> takeWhile (\<lambda>c. digitValue c < 10) s = s"
  by (induction s) (simp_all add: isDigit_below_10)

lemma parseInt_numeric:
  assumes "numericYear s"
  shows "parseInt s = Some (int (decimalValue s))"
proof -
  from assms obtain c cs where s: "s = c # cs" and c: "isDigit c" and cs: "list_all isDigit cs"
    by (cases s) (auto simp add: numericYear_def)
  have all: "list_all isDigit s" using s c cs by simp
  have ws: "dropWhile isWhiteSpace s = s" using s c by (simp add: isDigit_not_space)
  have sign: "take 1 s \<noteq> ''-''" "take 1 s \<noteq> ''+''"
    using s isDigit_not_sign [OF c] by simp_all
  have hex: "take 2 s \<noteq> ''0x''" "take 2 s \<noteq> ''0X''"
  proof -
    show "take 2 s \<noteq> ''0x''"
    proof
      assume "take 2 s = ''0x''"
      then obtain r where "cs = CHR ''x'' # r" using s by (cases cs) simp_all
      with cs have "isDigit (CHR ''x'')" by simp
      then show False by (simp add: isDigit_def)
    qed
    show "take 2 s \<noteq> ''0X''"
    proof
      assume "take 2 s = ''0X''"
      then obtain r where "cs = CHR ''X'' # r" using s by (cases cs) simp_all
      with cs have "isDigit (CHR ''X'')" by simp
      then show False by (simp add: isDigit_def)
    qed
  qed
  have ne: "s \<noteq> []" using s by simp
  show ?thesis
    unfolding parseInt_def ws Let_def
    using sign hex ne by (simp add: takeWhile_digits [OF all] foldl_digits [OF all] decimalValue_def)
qed

text \<open>
  What the handler does with every year parameter. When \<open>parseInt\<close> reads no integer
  from it, or reads one below 2000 or above the current year, the response is 400 with
  the message ``Invalid year'' and the store is not queried. When it reads an integer from
  2000 to the current year, the response is 200 with the monthly revenue of that year,
  whose months are 1 to 12, after one aggregation. A parameter of decimal digits only is
  read as its decimal value.
\<close>

theorem revenueRoute_year_check:
  "((parseInt yearParam = None
      \<or> (\<exists>y. parseInt yearParam = Some y \<and> (y < 2000 \<or> currentYear < y)))
     \<longrightarrow> revenueRoute tz currentYear ords yearParam
           = (\<lparr>statusCode = 400, json = Message ''Invalid year''\<rparr>, []))
   \<and> (\<forall>y. parseInt yearParam = Some y \<and> 2000 \<le> y \<and> y \<le> currentYear
     \<longrightarrow> revenueRoute tz currentYear ords yearParam
           = (\<lparr>statusCode = 200, json = Revenue (getMonthlyRevenue tz y ords)\<rparr>, [Order_aggregate])
         \<and> map month (getMonthlyRevenue tz y ords) = [1..<13])
   \<and> (numericYear yearParam \<longrightarrow> parseInt yearParam = Some (int (decimalValue yearParam)))"
proof (intro conjI impI allI)
  assume "parseInt yearParam = None
      \<or> (\<exists>y. parseInt yearParam = Some y \<and> (y < 2000 \<or> currentYear < y))"
  then show "revenueRoute tz currentYear ords yearParam
           = (\<lparr>statusCode = 400, json = Message ''Invalid year''\<rparr>, [])"
    by (auto simp add: revenueRoute_def)
next
  fix y assume "parseInt yearParam = Some y \<and> 2000 \<le> y \<and> y \<le> currentYear"
  then show "revenueRoute tz currentYear ords yearParam
           = (\<lparr>statusCode = 200, json = Revenue (getMonthlyRevenue tz y ords)\<rparr>, [Order_aggregate])"
    by (simp add: revenueRoute_def)
  show "map month (getMonthlyRevenue tz y ords) = [1..<13]"
    unfolding getMonthlyRevenue_eq by (simp add: comp_def del: upt_Suc)
next
  assume "numericYear yearParam"
  then show "parseInt yearParam = Some (int (decimalValue yearParam))"
    by (rule parseInt_numeric)
qed

theorem revenueRoute_year_check_witness:
  "revenueRoute 0 2025 exRevenueOrders ''2025''
     = (\<lparr>statusCode = 200, json = Revenue (getMonthlyRevenue 0 2025 exRevenueOrders)\<rparr>,
        [Order_aggregate])
   \<and> revenueRoute 0 2025 exRevenueOrders ''abc''
     = (\<lparr>statusCode = 400, json = Message ''Invalid year''\<rparr>, [])
   \<and> revenueRoute 0 2025 exRevenueOrders ''1999''
     = (\<lparr>statusCode = 400, json = Message ''Invalid year''\<rparr>, [])
   \<and> revenueRoute 0 2025 exRevenueOrders ''2026''
     = (\<lparr>statusCode = 400, json = Message ''Invalid year''\<rparr>, [])"
proof -
  have p: "parseInt ''2025'' = Some 2025" "parseInt ''abc'' = None"
    "parseInt ''1999'' = Some 1999" "parseInt ''2026'' = Some 2026"
    by code_simp+
  show ?thesis
    using revenueRoute_year_check [of "''2025''" 2025 0 exRevenueOrders]
          revenueRoute_year_check [of "''abc''" 2025 0 exRevenueOrders]
          revenueRoute_year_check [of "''1999''" 2025 0 exRevenueOrders]
          revenueRoute_year_check [of "''2026''" 2025 0 exRevenueOrders]
    by (simp add: p)
qed

text \<open>
  Claim C9. A year parameter that is not numeric is to be answered with 400, without any
  aggregation. The handler does so only when \<open>parseInt\<close> finds no leading integer: for the
  parameter \<open>2024abc\<close>, which is not numeric, \<open>parseInt\<close> reads 2024 and ignores the rest,
  and with the current year 2025 the handler runs the aggregation and answers 200 with
  the revenue of 2024.
\<close>

theorem revenueRoute_trailing_text_accepted:
  "\<not> numericYear ''2024abc''
   \<and> revenueRoute 0 2025 exRevenueOrders ''2024abc''
       = (\<lparr>statusCode = 200, json = Revenue (getMonthlyRevenue 0 2024 exRevenueOrders)\<rparr>,
          [Order_aggregate])"
proof -
  have p: "parseInt ''2024abc'' = Some 2024" by code_simp
  have n: "\<not> numericYear ''2024abc''" by code_simp
  from n show ?thesis by (simp add: revenueRoute_def p)
qed

end
